theory Spec2Isabelle
  imports Main "HOL-Library.Sublist" "HOL-Library.Multiset"
begin

section \<open>JavaScript strings\<close>

text \<open>
  A string is a list of 8-bit characters: the code units U+0000 to U+00FF (Latin-1) of
  the strings of the language. The functions below are the \<^verbatim>\<open>String.prototype\<close> methods
  that \<^verbatim>\<open>src/index.ts\<close> calls, each with the behaviour of the language on such strings.
\<close>

text \<open>
  The upper-case letters of that range, the characters that \<^verbatim>\<open>toLowerCase()\<close> changes:
  A to Z, and U+00C0 to U+00DE without the multiplication sign U+00D7. The lower-case
  letter of each is 32 code units above it.
\<close>

definition is_upper :: "char \<Rightarrow> bool" where
  "is_upper c =
     (let n = (of_char c :: nat) in
      (65 \<le> n \<and> n \<le> 90) \<or> (192 \<le> n \<and> n \<le> 222 \<and> n \<noteq> 215))"

definition lower_char :: "char \<Rightarrow> char" where
  "lower_char c = (if is_upper c then char_of ((of_char c :: nat) + 32) else c)"

text \<open>\<^verbatim>\<open>s.toLowerCase()\<close>\<close>

definition toLowerCase :: "string \<Rightarrow> string" where
  "toLowerCase s = map lower_char s"

text \<open>
  The white space of \<^verbatim>\<open>trim()\<close>, of the regular expression class \<^verbatim>\<open>\s\<close> and of
  \<^verbatim>\<open>Number()\<close>: tab, line feed, vertical tab, form feed, carriage return, space and the
  no-break space U+00A0.
\<close>

definition is_space :: "char \<Rightarrow> bool" where
  "is_space c = (let n = (of_char c :: nat) in (9 \<le> n \<and> n \<le> 13) \<or> n = 32 \<or> n = 160)"

text \<open>\<^verbatim>\<open>s.trim()\<close>\<close>

definition trim :: "string \<Rightarrow> string" where
  "trim s = rev (dropWhile is_space (rev (dropWhile is_space s)))"

text \<open>\<^verbatim>\<open>s.includes(sub)\<close>: \<^verbatim>\<open>sub\<close> occurs at some position of \<^verbatim>\<open>s\<close>.\<close>

fun includes_str :: "string \<Rightarrow> string \<Rightarrow> bool" where
  "includes_str [] sub = (sub = [])"
| "includes_str (c # cs) sub = (prefix sub (c # cs) \<or> includes_str cs sub)"

text \<open>
  \<^verbatim>\<open>s.split(sep)\<close> with a string separator: the pieces between ALL the occurrences of
  \<^verbatim>\<open>sep\<close>, found from the left and not overlapping. With the empty separator the
  language splits into single characters.
\<close>

fun split :: "string \<Rightarrow> string \<Rightarrow> string list" where
  "split [] sep = (if sep = [] then [] else [[]])"
| "split (c # cs) sep =
     (if sep = [] then [c] # split cs sep
      else if prefix sep (c # cs) then [] # split (drop (length sep - 1) cs) sep
      else (case split cs sep of
              [] \<Rightarrow> [[c]]
            | p # ps \<Rightarrow> (c # p) # ps))"

text \<open>\<^verbatim>\<open>parts.join(sep)\<close>\<close>

fun join :: "string list \<Rightarrow> string \<Rightarrow> string" where
  "join [] sep = []"
| "join [p] sep = p"
| "join (p # q # ps) sep = p @ sep @ join (q # ps) sep"

text \<open>\<^verbatim>\<open>s.replace(/^remind\s*/, "")\<close>\<close>

definition strip_remind :: "string \<Rightarrow> string" where
  "strip_remind s =
     (if prefix ''remind'' s then dropWhile is_space (drop 6 s) else s)"

definition is_digit :: "char \<Rightarrow> bool" where
  "is_digit c = (let n = (of_char c :: nat) in 48 \<le> n \<and> n \<le> 57)"

text \<open>
  \<^verbatim>\<open>part.match(/\d{1,2}(am|pm)/i)\<close> as a truth value. The expression is not anchored:
  \<open>ampm_at\<close> is the alternative \<^verbatim>\<open>(am|pm)\<close> at the head of a string under the flag
  \<^verbatim>\<open>i\<close>, \<open>time_at\<close> is a match of the whole expression at the head (one digit or two,
  then the alternative), and \<open>match_time\<close> tries every position.
\<close>

definition ampm_at :: "string \<Rightarrow> bool" where
  "ampm_at s = (prefix ''am'' (toLowerCase (take 2 s)) \<or> prefix ''pm'' (toLowerCase (take 2 s)))"

definition time_at :: "string \<Rightarrow> bool" where
  "time_at s =
     (case s of
        [] \<Rightarrow> False
      | d # r \<Rightarrow> is_digit d \<and>
          (ampm_at r \<or> (case r of [] \<Rightarrow> False | e # r' \<Rightarrow> is_digit e \<and> ampm_at r')))"

fun match_time :: "string \<Rightarrow> bool" where
  "match_time [] = False"
| "match_time (c # cs) = (time_at (c # cs) \<or> match_time cs)"


section \<open>Numbers\<close>

text \<open>
  \<^verbatim>\<open>isNaN(Number(s))\<close> for a string \<^verbatim>\<open>s\<close>. \<^verbatim>\<open>Number\<close> reads its argument by the
  grammar \<^verbatim>\<open>StringNumericLiteral\<close> of the language and gives \<^verbatim>\<open>NaN\<close> exactly when the
  string is not of that grammar: optional white space around nothing at all (the value is
  then 0), or around a decimal literal (an optional sign, then \<^verbatim>\<open>Infinity\<close>, or digits
  with an optional fraction and exponent), or around a binary, octal or hexadecimal
  integer literal without sign.
\<close>

definition DecimalDigits :: "string \<Rightarrow> bool" where
  "DecimalDigits s = (s \<noteq> [] \<and> list_all is_digit s)"

definition SignedInteger :: "string \<Rightarrow> bool" where
  "SignedInteger s =
     (case s of
        [] \<Rightarrow> False
      | c # r \<Rightarrow> if c = CHR ''+'' \<or> c = CHR ''-'' then DecimalDigits r else DecimalDigits s)"

definition ExponentPart_opt :: "string \<Rightarrow> bool" where
  "ExponentPart_opt s =
     (case s of
        [] \<Rightarrow> True
      | c # r \<Rightarrow> (c = CHR ''e'' \<or> c = CHR ''E'') \<and> SignedInteger r)"

definition StrUnsignedDecimalLiteral :: "string \<Rightarrow> bool" where
  "StrUnsignedDecimalLiteral s =
     (s = ''Infinity'' \<or>
      (let ip = takeWhile is_digit s; r = dropWhile is_digit s in
       case r of
         [] \<Rightarrow> ip \<noteq> []
       | c # r' \<Rightarrow>
           if c = CHR ''.''
           then (let fp = takeWhile is_digit r'; r'' = dropWhile is_digit r' in
                 (ip \<noteq> [] \<or> fp \<noteq> []) \<and> ExponentPart_opt r'')
           else ip \<noteq> [] \<and> ExponentPart_opt r))"

definition StrDecimalLiteral :: "string \<Rightarrow> bool" where
  "StrDecimalLiteral s =
     (case s of
        [] \<Rightarrow> False
      | c # r \<Rightarrow>
          if c = CHR ''+'' \<or> c = CHR ''-'' then StrUnsignedDecimalLiteral r
          else StrUnsignedDecimalLiteral s)"

definition is_hex_digit :: "char \<Rightarrow> bool" where
  "is_hex_digit c = (is_digit c \<or> c \<in> set ''abcdefABCDEF'')"

definition NonDecimalIntegerLiteral :: "string \<Rightarrow> bool" where
  "NonDecimalIntegerLiteral s =
     (case s of
        z # k # ds \<Rightarrow>
          z = CHR ''0'' \<and> ds \<noteq> [] \<and>
          (if k = CHR ''b'' \<or> k = CHR ''B'' then list_all (\<lambda>c. c \<in> set ''01'') ds
           else if k = CHR ''o'' \<or> k = CHR ''O'' then list_all (\<lambda>c. c \<in> set ''01234567'') ds
           else if k = CHR ''x'' \<or> k = CHR ''X'' then list_all is_hex_digit ds
           else False)
      | _ \<Rightarrow> False)"

definition isNaN_Number :: "string \<Rightarrow> bool" where
  "isNaN_Number s =
     (let t = trim s in \<not> (t = [] \<or> StrDecimalLiteral t \<or> NonDecimalIntegerLiteral t))"

text \<open>
  \<^verbatim>\<open>n.toString()\<close> for an integer: its decimal digits, with a minus sign when negative.
\<close>

fun nat_toString :: "nat \<Rightarrow> string" where
  "nat_toString n =
     (if n < 10 then [''0123456789'' ! n]
      else nat_toString (n div 10) @ [''0123456789'' ! (n mod 10)])"

declare nat_toString.simps [simp del]

definition toString :: "int \<Rightarrow> string" where
  "toString i = (if i < 0 then CHR ''-'' # nat_toString (nat (- i)) else nat_toString (nat i))"


section \<open>The table of reminders\<close>

text \<open>
  One row of the table \<^verbatim>\<open>reminders\<close>. The column \<^verbatim>\<open>id\<close> is the table's
  \<^verbatim>\<open>INTEGER PRIMARY KEY AUTOINCREMENT\<close>, that is its rowid; the other columns are \<^verbatim>\<open>TEXT\<close>.
\<close>

record reminder =
  rowid :: nat
  chat_id :: string
  message :: string
  day_of_week :: string
  time :: string
  recurring :: string

text \<open>
  The database: the rows in the order of their insertion, and \<open>seq\<close>, the largest rowid
  the table has ever held (what \<^verbatim>\<open>AUTOINCREMENT\<close> keeps in \<^verbatim>\<open>sqlite_sequence\<close>).
\<close>

record db =
  reminders :: "reminder list"
  seq :: nat

definition empty_db :: db where
  "empty_db = \<lparr>reminders = [], seq = 0\<rparr>"

text \<open>
  The \<^verbatim>\<open>err\<close> argument a statement's callback receives: \<open>None\<close> when the engine executed
  the statement, \<open>Some e\<close> when it failed with the error \<open>e\<close>. It is an input of the model:
  a statement that fails leaves the table as it was.
\<close>

type_synonym err = "string option"

text \<open>
  \<^verbatim>\<open>INSERT INTO reminders (chat_id, message, day_of_week, time, recurring) VALUES (?, ?, ?, ?, ?)\<close>.
  The new rowid is one more than the largest rowid the table has ever held.
\<close>

definition sql_insert :: "string \<Rightarrow> string \<Rightarrow> string \<Rightarrow> string \<Rightarrow> string \<Rightarrow> db \<Rightarrow> nat \<times> db" where
  "sql_insert c m dw t rc d =
     (let n = Suc (foldr max (map rowid (reminders d)) (seq d)) in
      (1, \<lparr>reminders = reminders d @
               [\<lparr>rowid = n, chat_id = c, message = m, day_of_week = dw, time = t, recurring = rc\<rparr>],
           seq = n\<rparr>))"

text \<open>
  \<^verbatim>\<open>DELETE FROM reminders WHERE id = ? AND chat_id = ?\<close>. The first parameter is a number
  in \<^verbatim>\<open>/deleteReminder\<close> and a string in \<^verbatim>\<open>/deleteReminders\<close>, so the comparison with the
  column \<^verbatim>\<open>id\<close> is the argument \<open>id_eq\<close>. The count is \<^verbatim>\<open>this.changes\<close>.
\<close>

definition sql_delete :: "(nat \<Rightarrow> bool) \<Rightarrow> string \<Rightarrow> db \<Rightarrow> nat \<times> db" where
  "sql_delete id_eq c d =
     (let kept = filter (\<lambda>r. \<not> (id_eq (rowid r) \<and> chat_id r = c)) (reminders d) in
      (length (reminders d) - length kept, d\<lparr>reminders := kept\<rparr>))"

text \<open>\<^verbatim>\<open>UPDATE reminders SET message = ? WHERE id = ? AND chat_id = ?\<close>\<close>

definition sql_update :: "string \<Rightarrow> nat \<Rightarrow> string \<Rightarrow> db \<Rightarrow> nat \<times> db" where
  "sql_update m i c d =
     (length (filter (\<lambda>r. rowid r = i \<and> chat_id r = c) (reminders d)),
      d\<lparr>reminders := map (\<lambda>r. if rowid r = i \<and> chat_id r = c then r\<lparr>message := m\<rparr> else r)
                          (reminders d)\<rparr>)"

text \<open>\<^verbatim>\<open>SELECT * FROM reminders WHERE chat_id = ?\<close>\<close>

definition sql_select_chat :: "string \<Rightarrow> db \<Rightarrow> reminder list" where
  "sql_select_chat c d = filter (\<lambda>r. chat_id r = c) (reminders d)"

text \<open>
  \<^verbatim>\<open>SELECT * FROM reminders WHERE day_of_week = ? AND time = ?\<close>. The first parameter is
  \<open>None\<close> when the script binds \<^verbatim>\<open>undefined\<close>, which the engine takes as \<^verbatim>\<open>NULL\<close>: no row
  equals it.
\<close>

definition sql_select_due :: "string option \<Rightarrow> string \<Rightarrow> db \<Rightarrow> reminder list" where
  "sql_select_due dw t d =
     filter (\<lambda>r. Some (day_of_week r) = dw \<and> time r = t) (reminders d)"

text \<open>
  \<^verbatim>\<open>db.run(sql, params, callback)\<close> and \<^verbatim>\<open>db.all(sql, params, callback)\<close>: what the
  callback receives (the error, or the count of changed rows, or the rows) and the
  database afterwards.
\<close>

definition db_run :: "err \<Rightarrow> (db \<Rightarrow> nat \<times> db) \<Rightarrow> db \<Rightarrow> (string + nat) \<times> db" where
  "db_run e stmt d =
     (case e of
        Some msg \<Rightarrow> (Inl msg, d)
      | None \<Rightarrow> (Inr (fst (stmt d)), snd (stmt d)))"

definition db_all :: "err \<Rightarrow> (db \<Rightarrow> reminder list) \<Rightarrow> db \<Rightarrow> string + reminder list" where
  "db_all e query d =
     (case e of
        Some msg \<Rightarrow> Inl msg
      | None \<Rightarrow> Inr (query d))"

section \<open>The bot\<close>

definition daysOfWeek :: "string list" where
  "daysOfWeek =
     [''sunday'', ''monday'', ''tuesday'', ''wednesday'', ''thursday'', ''friday'', ''saturday'']"

text \<open>
  The libraries the script calls on dates, as parameters: \<open>parseDate\<close> is
  \<^verbatim>\<open>chrono.parseDate\<close> (\<open>None\<close> for \<^verbatim>\<open>null\<close>), \<open>tz_kolkata\<close> is
  \<^verbatim>\<open>moment(t).tz("Asia/Kolkata", true).toDate()\<close>, \<open>toTimeString\<close> and \<open>getDay\<close> are the
  methods of \<^verbatim>\<open>Date\<close>. The type \<open>'t\<close> is that of \<^verbatim>\<open>Date\<close> objects.
\<close>

record 't dates =
  parseDate :: "string \<Rightarrow> 't option"
  tz_kolkata :: "'t \<Rightarrow> 't"
  toTimeString :: "'t \<Rightarrow> string"
  getDay :: "'t \<Rightarrow> nat"

text \<open>
  The texts the bot sends, one constructor for each template of the script, with the
  values the template interpolates:
  \<^item> \<open>NeedEvery\<close>: Please use the word "every" to set recurring reminders.
  \<^item> \<open>NoDaysFound\<close>: No days found. Mention days like Sunday, Wednesday.
  \<^item> \<open>NoValidTime\<close>: No valid time found. Please specify a time like 2pm or 8pm.
  \<^item> \<open>ReminderSet days t\<close>: Reminder set for \<open>days\<close> at \<open>t\<close> IST
  \<^item> \<open>ErrorRetrieving\<close>: Error retrieving reminders.
  \<^item> \<open>NoReminders\<close>: You have no reminders set.
  \<^item> \<open>YourReminders list\<close>: Your Reminders: \<open>list\<close>
  \<^item> \<open>ErrorDeleting\<close>: Error deleting reminder.
  \<^item> \<open>NoReminderFound i\<close>: No reminder found with ID \<open>i\<close>.
  \<^item> \<open>ReminderDeleted i\<close>: Reminder with ID \<open>i\<close> deleted.
  \<^item> \<open>ProvideValidIds\<close>: Please provide valid reminder IDs to delete.
  \<^item> \<open>FailedToDelete tok\<close>: Failed to delete reminder with ID: \<open>tok\<close>
  \<^item> \<open>SuccessfullyDeleted toks\<close>: Successfully deleted reminders with IDs: \<open>toks\<close>
  \<^item> \<open>ErrorUpdating\<close>: Error updating reminder.
  \<^item> \<open>ReminderUpdated i\<close>: Reminder with ID \<open>i\<close> updated.
  \<^item> \<open>Reminder m\<close>: Reminder: \<open>m\<close>
  Console output is not part of the model.
\<close>

datatype reply =
    NeedEvery
  | NoDaysFound
  | NoValidTime
  | ReminderSet string string
  | ErrorRetrieving
  | NoReminders
  | YourReminders string
  | ErrorDeleting
  | NoReminderFound nat
  | ReminderDeleted nat
  | ProvideValidIds
  | FailedToDelete string
  | SuccessfullyDeleted string
  | ErrorUpdating
  | ReminderUpdated nat
  | Reminder string

datatype js_error = TypeError

subsection \<open>/addReminder\<close>

text \<open>The local constants of the handler, each named as in the script.\<close>

definition foundDays :: "string \<Rightarrow> string list" where
  "foundDays dayTimePart =
     filter (\<lambda>day. includes_str (toLowerCase dayTimePart) day) daysOfWeek"

definition timePart :: "string \<Rightarrow> string" where
  "timePart dayTimePart = join (filter match_time (split dayTimePart '' '')) '' ''"

definition timeStr :: "'t dates \<Rightarrow> 't \<Rightarrow> string" where
  "timeStr lib parsedTime = take 5 (toTimeString lib (tz_kolkata lib parsedTime))"

text \<open>
  The script never calls \<^verbatim>\<open>db.serialize()\<close>, so the statements that one handler issues
  in a \<^verbatim>\<open>forEach\<close> are run by the store in an order of its own. That order is an input of
  the model, \<open>pick\<close>: each number of \<open>pick\<close> chooses, modulo the number of the statements
  still pending, the one that runs next; when \<open>pick\<close> is used up the pending statements
  run in the order of their issue. Every \<open>pick\<close> gives a permutation of the statements, and
  every permutation is given by some \<open>pick\<close>.
\<close>

fun schedule :: "nat list \<Rightarrow> 'a list \<Rightarrow> 'a list" where
  "schedule pick [] = []"
| "schedule [] (x # xs) = x # xs"
| "schedule (p # pick) (x # xs) =
     (let k = p mod length (x # xs) in
      (x # xs) ! k # schedule pick (take k (x # xs) @ drop (Suc k) (x # xs)))"

text \<open>
  \<^verbatim>\<open>foundDays.forEach((day) => db.run(INSERT ...))\<close>: one statement for each day, without
  a callback. A statement is the number of its issue and its day; \<open>errs k\<close> is the outcome
  of the statement issued as the \<open>k\<close>-th. The function runs the statements in the order of
  its list.
\<close>

fun insert_days :: "(nat \<Rightarrow> err) \<Rightarrow> string \<Rightarrow> string \<Rightarrow> string \<Rightarrow> (nat \<times> string) list \<Rightarrow> db \<Rightarrow> db" where
  "insert_days errs c m t [] d = d"
| "insert_days errs c m t ((k, day) # stmts) d =
     insert_days errs c m t stmts (snd (db_run (errs k) (sql_insert c m day t ''yes'') d))"

text \<open>
  The handler, from \<^verbatim>\<open>match[1]\<close> on. The array pattern
  \<^verbatim>\<open>[messagePartRaw, dayTimePartRaw]\<close> takes the first two pieces of the split and leaves
  the others; with fewer than two pieces \<^verbatim>\<open>dayTimePartRaw\<close> is \<^verbatim>\<open>undefined\<close> and
  \<^verbatim>\<open>dayTimePartRaw.trim()\<close> throws.
\<close>

definition addReminder ::
  "'t dates \<Rightarrow> (nat \<Rightarrow> err) \<Rightarrow> nat list \<Rightarrow> int \<Rightarrow> string \<Rightarrow> db \<Rightarrow>
   js_error + (db \<times> reply list)" where
  "addReminder lib errs pick chatId arg d =
     (let text = toLowerCase arg in
      if \<not> includes_str text ''every'' then Inr (d, [NeedEvery])
      else
        (case split text ''every'' of
           messagePartRaw # dayTimePartRaw # _ \<Rightarrow>
             (let messagePart = trim (strip_remind messagePartRaw);
                  dayTimePart = trim dayTimePartRaw in
              if length (foundDays dayTimePart) = 0 then Inr (d, [NoDaysFound])
              else
                (case parseDate lib (timePart dayTimePart) of
                   None \<Rightarrow> Inr (d, [NoValidTime])
                 | Some parsedTime \<Rightarrow>
                     Inr (insert_days errs (toString chatId) messagePart
                            (timeStr lib parsedTime)
                            (schedule pick (enumerate 0 (foundDays dayTimePart))) d,
                          [ReminderSet (join (foundDays dayTimePart) '', '')
                             (timeStr lib parsedTime)])))
         | _ \<Rightarrow> Inl TypeError))"

subsection \<open>/listReminders\<close>

definition format_row :: "reminder \<Rightarrow> string" where
  "format_row row =
     ''ID: '' @ nat_toString (rowid row) @ [CHR '' '', CHR 0x0A] @
     ''Message: '' @ message row @ [CHR '' '', CHR 0x0A] @
     ''Day: '' @ day_of_week row @ [CHR '' '', CHR 0x0A] @
     ''Time: '' @ time row"

definition listReminders :: "err \<Rightarrow> int \<Rightarrow> db \<Rightarrow> reply list" where
  "listReminders e chatId d =
     (case db_all e (sql_select_chat (toString chatId)) d of
        Inl msg \<Rightarrow> [ErrorRetrieving]
      | Inr rows \<Rightarrow>
          if length rows = 0 then [NoReminders]
          else [YourReminders (join (map format_row rows) [CHR 0x0A, CHR 0x0A])])"

subsection \<open>/deleteReminder\<close>

text \<open>The handler, from \<^verbatim>\<open>reminderId = parseInt(match[1])\<close> on.\<close>

definition deleteReminder :: "err \<Rightarrow> int \<Rightarrow> nat \<Rightarrow> db \<Rightarrow> db \<times> reply list" where
  "deleteReminder e chatId reminderId d =
     (case db_run e (sql_delete (\<lambda>i. i = reminderId) (toString chatId)) d of
        (Inl msg, d') \<Rightarrow> (d', [ErrorDeleting])
      | (Inr changes, d') \<Rightarrow>
          if changes = 0 then (d', [NoReminderFound reminderId])
          else (d', [ReminderDeleted reminderId]))"

subsection \<open>/deleteReminders\<close>

definition reminderIds :: "string \<Rightarrow> string list" where
  "reminderIds arg = filter (\<lambda>id. \<not> isNaN_Number id) (map trim (split arg '',''))"

text \<open>
  \<^verbatim>\<open>reminderIds.forEach((id) => db.run(DELETE ..., [id, chatId.toString()], callback))\<close>.
  The parameter \<^verbatim>\<open>id\<close> is a string here: \<open>text_id tok\<close> is the rowid that the engine
  finds equal to the text \<open>tok\<close>, if there is one (the engine's conversion of a text
  compared with an integer column, a parameter of the model). \<open>errs k\<close> is the outcome of
  the \<open>k\<close>-th statement; the result holds the messages of the callbacks. Each statement
  removes the rows that its own condition matches, so the table after all of them is the
  same in whatever order the store runs them (\<open>sql_delete_commute\<close>); the function runs
  them in the order of their issue.
\<close>

fun delete_each ::
  "(string \<Rightarrow> nat option) \<Rightarrow> (nat \<Rightarrow> err) \<Rightarrow> nat \<Rightarrow> string \<Rightarrow> string list \<Rightarrow> db \<Rightarrow> db \<times> reply list" where
  "delete_each text_id errs k c [] d = (d, [])"
| "delete_each text_id errs k c (tok # toks) d =
     (case db_run (errs k) (sql_delete (\<lambda>i. text_id tok = Some i) c) d of
        (Inl msg, d') \<Rightarrow>
          (fst (delete_each text_id errs (Suc k) c toks d'),
           FailedToDelete tok # snd (delete_each text_id errs (Suc k) c toks d'))
      | (Inr changes, d') \<Rightarrow> delete_each text_id errs (Suc k) c toks d')"

text \<open>
  The handler, from \<^verbatim>\<open>match[1]\<close> on. The last \<^verbatim>\<open>sendMessage\<close> of the handler runs
  before any callback of the statements, so its message is the first.
\<close>

definition deleteReminders ::
  "(string \<Rightarrow> nat option) \<Rightarrow> (nat \<Rightarrow> err) \<Rightarrow> int \<Rightarrow> string \<Rightarrow> db \<Rightarrow> db \<times> reply list" where
  "deleteReminders text_id errs chatId arg d =
     (if length (reminderIds arg) = 0 then (d, [ProvideValidIds])
      else
        (fst (delete_each text_id errs 0 (toString chatId) (reminderIds arg) d),
         SuccessfullyDeleted (join (reminderIds arg) '', '') #
         snd (delete_each text_id errs 0 (toString chatId) (reminderIds arg) d)))"

subsection \<open>/updateReminder\<close>

text \<open>
  The handler, from \<^verbatim>\<open>reminderId = parseInt(match[1])\<close> and \<^verbatim>\<open>newMessage = match[2]\<close> on.
\<close>

definition updateReminder :: "err \<Rightarrow> int \<Rightarrow> nat \<Rightarrow> string \<Rightarrow> db \<Rightarrow> db \<times> reply list" where
  "updateReminder e chatId reminderId newMessage d =
     (case db_run e (sql_update newMessage reminderId (toString chatId)) d of
        (Inl msg, d') \<Rightarrow> (d', [ErrorUpdating])
      | (Inr changes, d') \<Rightarrow>
          if changes = 0 then (d', [NoReminderFound reminderId])
          else (d', [ReminderUpdated reminderId]))"

subsection \<open>The scheduler\<close>

text \<open>
  One run of the function given to \<^verbatim>\<open>setInterval\<close>, at the date \<open>now\<close>: the messages it
  sends, each with the \<^verbatim>\<open>chat_id\<close> it is sent to. \<^verbatim>\<open>daysOfWeek[now.getDay()]\<close> is
  \<^verbatim>\<open>undefined\<close> out of the array's range.
\<close>

definition tick :: "'t dates \<Rightarrow> err \<Rightarrow> 't \<Rightarrow> db \<Rightarrow> (string \<times> reply) list" where
  "tick lib e now d =
     (let today = (if getDay lib now < length daysOfWeek
                   then Some (daysOfWeek ! getDay lib now) else None);
          currentTime = take 5 (toTimeString lib now) in
      case db_all e (sql_select_due today currentTime) d of
        Inl msg \<Rightarrow> []
      | Inr rows \<Rightarrow> map (\<lambda>row. (chat_id row, Reminder (message row))) rows)"


section \<open>Constants of the proofs and of the examples\<close>

text \<open>The number that a string of decimal digits denotes.\<close>

definition digits_value :: "string \<Rightarrow> nat" where
  "digits_value s = foldl (\<lambda>a c. 10 * a + ((of_char c :: nat) - 48)) 0 s"

text \<open>
  An instance of the date libraries for the examples: a date is a day of the week (0 for
  Sunday), an hour and a minute of a process whose local zone is Asia/Kolkata, and the
  parser knows the single text \<^verbatim>\<open>8pm\<close>.
\<close>

definition two_digits :: "nat \<Rightarrow> string" where
  "two_digits n = (if n < 10 then CHR ''0'' # nat_toString n else nat_toString n)"

definition ist_dates :: "(nat \<times> nat \<times> nat) dates" where
  "ist_dates =
     \<lparr>parseDate = (\<lambda>s. if s = ''8pm'' then Some (0, 20, 0) else None),
      tz_kolkata = (\<lambda>t. t),
      toTimeString = (\<lambda>(wd, h, m). two_digits h @ '':'' @ two_digits m @ '':00 GMT+0530''),
      getDay = (\<lambda>(wd, h, m). wd)\<rparr>"

text \<open>
  The date libraries in a process whose local zone is \<open>off\<close> seconds east of UTC. A date
  is an instant, in seconds since 1 January 1970 UTC (a Thursday).
  \<^item> \<^verbatim>\<open>d.toTimeString()\<close> prints the clock of the local zone at the instant, as
    \<^verbatim>\<open>HH:MM:SS GMT+hhmm\<close> (the name of the zone that follows is left out; the script keeps
    the first five characters).
  \<^item> \<^verbatim>\<open>d.getDay()\<close> is the day of the week of the local zone at the instant.
  \<^item> \<^verbatim>\<open>moment(d).tz("Asia/Kolkata", true)\<close> keeps the local clock reading of \<^verbatim>\<open>d\<close> and
    takes it as a reading of the zone Asia/Kolkata, 19800 seconds east of UTC: the new
    instant is the one at which the clock of Asia/Kolkata shows what the local clock shows
    at \<^verbatim>\<open>d\<close>; \<^verbatim>\<open>toDate()\<close> gives that instant.
  \<^item> \<^verbatim>\<open>chrono.parseDate\<close> is the argument \<open>chrono\<close>.
\<close>

definition hh_mm :: "int \<Rightarrow> string" where
  "hh_mm s = two_digits (nat (s div 3600 mod 24)) @ '':'' @ two_digits (nat (s div 60 mod 60))"

definition gmt_offset :: "int \<Rightarrow> string" where
  "gmt_offset off =
     (if off < 0 then ''-'' else ''+'') @
     two_digits (nat (\<bar>off\<bar> div 3600)) @ two_digits (nat (\<bar>off\<bar> div 60 mod 60))"

definition process_dates :: "int \<Rightarrow> (string \<Rightarrow> int option) \<Rightarrow> int dates" where
  "process_dates off chrono =
     \<lparr>parseDate = chrono,
      tz_kolkata = (\<lambda>t. t + off - 19800),
      toTimeString =
        (\<lambda>t. hh_mm (t + off) @ '':'' @ two_digits (nat ((t + off) mod 60)) @
              '' GMT'' @ gmt_offset off),
      getDay = (\<lambda>t. nat (((t + off) div 86400 + 4) mod 7))\<rparr>"

text \<open>
  Two processes for the examples, each with a parser that reads the text \<^verbatim>\<open>8pm\<close> as
  20:00:00 of 1 January 1970 on the local clock and reads nothing else: one in the zone
  UTC, one in the zone Asia/Kolkata.
\<close>

definition utc_process :: "int dates" where
  "utc_process = process_dates 0 (\<lambda>s. if s = ''8pm'' then Some 72000 else None)"

definition kolkata_process :: "int dates" where
  "kolkata_process = process_dates 19800 (\<lambda>s. if s = ''8pm'' then Some 52200 else None)"

text \<open>
  The parts of a lower-cased argument that the handler of \<^verbatim>\<open>/addReminder\<close> works with:
  \<^verbatim>\<open>messagePart\<close> and \<^verbatim>\<open>dayTimePart\<close>, or nothing when the split has fewer than two
  pieces.
\<close>

definition add_parts :: "string \<Rightarrow> (string \<times> string) option" where
  "add_parts text =
     (case split text ''every'' of
        messagePartRaw # dayTimePartRaw # _ \<Rightarrow>
          Some (trim (strip_remind messagePartRaw), trim dayTimePartRaw)
      | _ \<Rightarrow> None)"

text \<open>The largest rowid the table holds or has held.\<close>

definition max_rowid :: "db \<Rightarrow> nat" where
  "max_rowid d = foldr max (map rowid (reminders d)) (seq d)"

text \<open>The rows of one chat, message and time for a list of days, numbered from \<open>n + 1\<close> on.\<close>

fun new_rows :: "nat \<Rightarrow> string \<Rightarrow> string \<Rightarrow> string \<Rightarrow> string list \<Rightarrow> reminder list" where
  "new_rows n c m t [] = []"
| "new_rows n c m t (day # days) =
     \<lparr>rowid = Suc n, chat_id = c, message = m, day_of_week = day, time = t, recurring = ''yes''\<rparr>
     # new_rows (Suc n) c m t days"

section \<open>Properties of the string functions\<close>

lemma includes_str_sublist: "includes_str s sub = sublist sub s"
  by (induction s) (auto simp: sublist_Cons_right)

lemma split_nonempty: "sep \<noteq> [] \<Longrightarrow> split s sep \<noteq> []"
  by (induction s sep rule: split.induct) (auto split: list.splits)

lemma split_absent: "sep \<noteq> [] \<Longrightarrow> \<not> includes_str s sep \<Longrightarrow> split s sep = [s]"
  by (induction s sep rule: split.induct) (auto split: list.splits)

lemma split_pieces_set: "p \<in> set (split s sep) \<Longrightarrow> set p \<subseteq> set s"
proof (induction s sep arbitrary: p rule: split.induct)
  case (1 sep)
  then show ?case by (auto split: if_splits)
next
  case (2 c cs sep)
  show ?case
  proof (cases "sep = []")
    case True
    with 2 show ?thesis by auto
  next
    case False
    show ?thesis
    proof (cases "prefix sep (c # cs)")
      case True
      with False "2.prems" have "p = [] \<or> p \<in> set (split (drop (length sep - 1) cs) sep)"
        by simp
      with "2.IH"(2)[OF False True] have "p = [] \<or> set p \<subseteq> set (drop (length sep - 1) cs)"
        by blast
      then show ?thesis
        using set_drop_subset[of "length sep - 1" cs] by auto
    next
      case np: False
      obtain q qs where q: "split cs sep = q # qs"
        using split_nonempty[OF False, of cs] by (cases "split cs sep") auto
      with False np "2.prems" have "p = c # q \<or> p \<in> set qs" by simp
      moreover have "set q \<subseteq> set cs" using "2.IH"(3)[OF False np, of q] q by simp
      moreover have "p \<in> set qs \<Longrightarrow> set p \<subseteq> set cs" using "2.IH"(3)[OF False np, of p] q by simp
      ultimately show ?thesis by auto
    qed
  qed
qed

lemma butlast_excludes: "sep \<noteq> [] \<Longrightarrow> \<not> includes_str (butlast sep) sep"
proof
  assume "sep \<noteq> []" and "includes_str (butlast sep) sep"
  then have "sublist sep (butlast sep)"
    by (simp add: includes_str_sublist)
  then have "length sep \<le> length (butlast sep)"
    by (rule sublist_length_le)
  with \<open>sep \<noteq> []\<close> show False by (cases sep rule: rev_cases) auto
qed

text \<open>
  The first piece of a split ends at the first occurrence of the separator, and the other
  pieces are the split of what follows that occurrence.
\<close>

lemma split_first:
  "sep \<noteq> [] \<Longrightarrow> includes_str s sep \<Longrightarrow>
   \<exists>a r. s = a @ sep @ r \<and> \<not> includes_str (a @ butlast sep) sep \<and> split s sep = a # split r sep"
proof (induction s sep rule: split.induct)
  case (1 sep)
  then show ?case by simp
next
  case (2 c cs sep)
  note ne = \<open>sep \<noteq> []\<close>
  show ?case
  proof (cases "prefix sep (c # cs)")
    case True
    then obtain r where r: "c # cs = sep @ r" by (auto simp: prefix_def)
    with ne have "drop (length sep - 1) cs = r"
      by (cases sep) auto
    with True ne have "split (c # cs) sep = [] # split r sep" by simp
    then show ?thesis using r butlast_excludes[OF ne] by auto
  next
    case False
    with "2.prems" have inc: "includes_str cs sep" by simp
    from "2.IH"(3)[OF ne False ne inc]
    obtain a r where ar: "cs = a @ sep @ r" "\<not> includes_str (a @ butlast sep) sep"
      "split cs sep = a # split r sep"
      by blast
    have "split (c # cs) sep = (c # a) # split r sep"
      using False ne ar by simp
    moreover have "\<not> prefix sep (c # a @ butlast sep)"
    proof
      assume "prefix sep (c # a @ butlast sep)"
      then have "prefix sep ((c # a @ butlast sep) @ (last sep # r))"
        using prefix_prefix by blast
      moreover have "butlast sep @ last sep # r = sep @ r"
        using append_butlast_last_id[OF ne] by (metis append_Cons append_Nil append_assoc)
      then have "(c # a @ butlast sep) @ (last sep # r) = c # cs"
        using ar(1) by simp
      ultimately show False using False by simp
    qed
    then have "\<not> includes_str ((c # a) @ butlast sep) sep" using ar(2) by simp
    ultimately show ?thesis using ar(1) by auto
  qed
qed

lemma split_two:
  "sep \<noteq> [] \<Longrightarrow> includes_str s sep \<Longrightarrow> \<exists>a b rest. split s sep = a # b # rest"
  using split_first[of sep s] split_nonempty[of sep]
  by (metis list.exhaust)

text \<open>
  With a further occurrence of the separator after the first, the second piece ends at
  that occurrence: it is the text between the first occurrence and the second. Without
  one, the second piece is all the text after the first occurrence.
\<close>

lemma split_second_piece:
  assumes "sep \<noteq> []" and "includes_str s sep"
  shows "\<exists>a b rest r. split s sep = a # b # rest \<and> s = a @ sep @ r
           \<and> \<not> includes_str (a @ butlast sep) sep
           \<and> (if includes_str r sep
                then (\<exists>r'. r = b @ sep @ r') \<and> \<not> includes_str (b @ butlast sep) sep
                else b = r \<and> rest = [])"
proof -
  from split_first[OF assms] obtain a r where
    ar: "s = a @ sep @ r" "\<not> includes_str (a @ butlast sep) sep" "split s sep = a # split r sep"
    by blast
  show ?thesis
  proof (cases "includes_str r sep")
    case True
    from split_first[OF assms(1) True] obtain b r' where
      br: "r = b @ sep @ r'" "\<not> includes_str (b @ butlast sep) sep"
        "split r sep = b # split r' sep"
      by blast
    with ar True show ?thesis by auto
  next
    case False
    from split_absent[OF assms(1) False] ar False show ?thesis by auto
  qed
qed

section \<open>Properties of toString\<close>

lemma digit_table: "k < 10 \<Longrightarrow> of_char (''0123456789'' ! k) = 48 + k"
proof -
  assume "k < 10"
  then have "k \<in> {0, 1, 2, 3, 4, 5, 6, 7, 8, 9}" by auto
  then show ?thesis by auto
qed

lemma digits_value_snoc:
  "digits_value (s @ [c]) = 10 * digits_value s + ((of_char c :: nat) - 48)"
  by (simp add: digits_value_def)

lemma digits_value_toString: "digits_value (nat_toString n) = n"
proof (induction n rule: nat_toString.induct)
  case (1 n)
  show ?case
  proof (cases "n < 10")
    case True
    then show ?thesis
      by (subst nat_toString.simps) (simp add: digits_value_def digit_table)
  next
    case False
    have "n mod 10 < 10" by simp
    then have "(of_char (''0123456789'' ! (n mod 10)) :: nat) - 48 = n mod 10"
      by (simp only: digit_table)
    with False "1.IH" show ?thesis
      by (subst nat_toString.simps) (simp add: digits_value_snoc)
  qed
qed

lemma nat_toString_inj: "nat_toString m = nat_toString n \<Longrightarrow> m = n"
  by (metis digits_value_toString)

lemma digit_table_is_digit: "k < 10 \<Longrightarrow> is_digit (''0123456789'' ! k)"
  by (simp only: is_digit_def digit_table Let_def) simp

lemma nat_toString_digits: "list_all is_digit (nat_toString n)"
proof (induction n rule: nat_toString.induct)
  case (1 n)
  have m: "n mod 10 < 10" by simp
  show ?case
  proof (cases "n < 10")
    case True
    then show ?thesis by (subst nat_toString.simps) (simp add: digit_table_is_digit)
  next
    case False
    with "1.IH" digit_table_is_digit[OF m] show ?thesis by (subst nat_toString.simps) simp
  qed
qed

lemma nat_toString_no_minus: "nat_toString n \<noteq> CHR ''-'' # s"
proof
  assume "nat_toString n = CHR ''-'' # s"
  with nat_toString_digits[of n] have "is_digit (CHR ''-'')" by simp
  then show False by (simp add: is_digit_def)
qed

text \<open>Two chats have two \<^verbatim>\<open>chat_id\<close> texts.\<close>

lemma toString_inj: "toString i = toString j \<Longrightarrow> i = j"
  unfolding toString_def
  by (auto split: if_splits dest!: nat_toString_inj
      simp: nat_toString_no_minus nat_toString_no_minus[symmetric])

lemma toString_eq_iff: "toString i = toString j \<longleftrightarrow> i = j"
  using toString_inj by blast

lemma nat_toString_numeral:
  "nat_toString (numeral k) =
     (if (numeral k :: nat) < 10 then [''0123456789'' ! numeral k]
      else nat_toString (numeral k div 10) @ [''0123456789'' ! (numeral k mod 10)])"
  by (subst nat_toString.simps) simp

lemma nat_toString_0: "nat_toString 0 = ''0''"
  by (subst nat_toString.simps) simp

lemma nat_toString_1: "nat_toString (Suc 0) = ''1''"
  by (subst nat_toString.simps) simp

lemmas toString_eval = toString_def nat_toString_numeral nat_toString_0 nat_toString_1

section \<open>The scheduler\<close>

text \<open>
  C1. A run of the scheduler on day \<open>g\<close> of the week (0 for Sunday) at the time \<open>t\<close>
  (the first five characters of the clock's text), when the store answers the query,
  sends one message for each row of the table whose \<^verbatim>\<open>day_of_week\<close> is the name of that
  day and whose \<^verbatim>\<open>time\<close> is \<open>t\<close>, whatever its \<^verbatim>\<open>chat_id\<close>, in the order of the table,
  and sends nothing for any other row.
\<close>

theorem tick_delivers_exactly_due:
  assumes "getDay lib now = g" and "g < 7" and "take 5 (toTimeString lib now) = t"
  shows "tick lib None now d =
           map (\<lambda>r. (chat_id r, Reminder (message r)))
             (filter (\<lambda>r. day_of_week r = daysOfWeek ! g \<and> time r = t) (reminders d))"
  using assms
  by (simp add: tick_def db_all_def sql_select_due_def daysOfWeek_def)

text \<open>
  On a Wednesday at 20:00, with reminders of two chats: the two rows of Wednesday 20:00
  are delivered, the row of 20:01 and the row of Thursday are not.
\<close>

theorem tick_delivers_exactly_due_witness:
  "tick ist_dates None (3, 20, 0)
     \<lparr>reminders =
        [\<lparr>rowid = 1, chat_id = ''7'', message = ''a'', day_of_week = ''wednesday'',
          time = ''20:00'', recurring = ''yes''\<rparr>,
         \<lparr>rowid = 2, chat_id = ''7'', message = ''b'', day_of_week = ''wednesday'',
          time = ''20:01'', recurring = ''yes''\<rparr>,
         \<lparr>rowid = 3, chat_id = ''8'', message = ''c'', day_of_week = ''thursday'',
          time = ''20:00'', recurring = ''yes''\<rparr>,
         \<lparr>rowid = 4, chat_id = ''8'', message = ''d'', day_of_week = ''wednesday'',
          time = ''20:00'', recurring = ''yes''\<rparr>],
      seq = 4\<rparr>
   = [(''7'', Reminder ''a''), (''8'', Reminder ''d'')]"
proof -
  have g: "getDay ist_dates (3, 20, 0) = 3" by (simp add: ist_dates_def)
  have t: "take 5 (toTimeString ist_dates (3, 20, 0)) = ''20:00''"
    by (simp add: ist_dates_def two_digits_def toString_eval)
  show ?thesis
    using tick_delivers_exactly_due [OF g _ t] by (simp add: daysOfWeek_def)
qed


section \<open>Deleting and updating\<close>

lemma filter_none_length:
  "(\<forall>r \<in> set rs. \<not> P r) \<Longrightarrow> length (filter P rs) = 0"
  by (induction rs) auto

lemma map_update_id:
  "(\<forall>r \<in> set rs. \<not> P r) \<Longrightarrow> map (\<lambda>r. if P r then f r else r) rs = rs"
  by (induction rs) auto

lemma sql_delete_no_match:
  assumes "\<forall>r \<in> set (reminders d). \<not> (id_eq (rowid r) \<and> chat_id r = c)"
  shows "sql_delete id_eq c d = (0, d)"
proof -
  have "filter (\<lambda>r. \<not> (id_eq (rowid r) \<and> chat_id r = c)) (reminders d) = reminders d"
    using assms by (simp add: filter_id_conv)
  then show ?thesis by (simp add: sql_delete_def)
qed

lemma sql_update_no_match:
  assumes "\<forall>r \<in> set (reminders d). \<not> (rowid r = i \<and> chat_id r = c)"
  shows "sql_update m i c d = (0, d)"
  using assms map_update_id[of "reminders d" "\<lambda>r. rowid r = i \<and> chat_id r = c"]
    filter_none_length[of "reminders d" "\<lambda>r. rowid r = i \<and> chat_id r = c"]
  by (simp add: sql_update_def)

text \<open>
  C7. When no row has the id \<open>i\<close>, or every row that has it belongs to another chat than
  the one that asks, and the store executes the statement, \<^verbatim>\<open>/deleteReminder i\<close> and
  \<^verbatim>\<open>/updateReminder i m\<close> are no errors: the statement reports 0 changed rows, the reply
  is "No reminder found with ID i", and the database is the same afterwards; so every chat
  still reads the rows it read before, the owner of a row with the id \<open>i\<close> included.
\<close>

theorem delete_update_not_found:
  assumes "\<forall>r \<in> set (reminders d). rowid r = i \<longrightarrow>
             (\<exists>owner. owner \<noteq> chatId \<and> chat_id r = toString owner)"
  shows "db_run None (sql_delete (\<lambda>k. k = i) (toString chatId)) d = (Inr 0, d)
       \<and> db_run None (sql_update m i (toString chatId)) d = (Inr 0, d)
       \<and> deleteReminder None chatId i d = (d, [NoReminderFound i])
       \<and> updateReminder None chatId i m d = (d, [NoReminderFound i])
       \<and> (\<forall>owner. sql_select_chat (toString owner) (fst (deleteReminder None chatId i d))
                   = sql_select_chat (toString owner) d)
       \<and> (\<forall>r \<in> set (reminders d).
             r \<in> set (sql_select_chat (chat_id r) (fst (deleteReminder None chatId i d))))"
proof -
  have nm: "\<forall>r \<in> set (reminders d). \<not> (rowid r = i \<and> chat_id r = toString chatId)"
    using assms by (auto simp: toString_eq_iff)
  have del: "sql_delete (\<lambda>k. k = i) (toString chatId) d = (0, d)"
    using nm by (intro sql_delete_no_match) simp
  have upd: "sql_update m i (toString chatId) d = (0, d)"
    using nm by (rule sql_update_no_match)
  show ?thesis
    by (simp add: deleteReminder_def updateReminder_def db_run_def del upd sql_select_chat_def)
qed

text \<open>
  Chat 8 deletes the id 1 of chat 7, and chat 7 updates the id 2 that no row has: both get
  the reply, and chat 7 still reads its row.
\<close>

theorem delete_update_not_found_witness:
  "deleteReminder None 8 1
     \<lparr>reminders = [\<lparr>rowid = 1, chat_id = ''7'', message = ''a'', day_of_week = ''sunday'',
                     time = ''20:00'', recurring = ''yes''\<rparr>], seq = 1\<rparr>
   = (\<lparr>reminders = [\<lparr>rowid = 1, chat_id = ''7'', message = ''a'', day_of_week = ''sunday'',
                     time = ''20:00'', recurring = ''yes''\<rparr>], seq = 1\<rparr>, [NoReminderFound 1])
   \<and> updateReminder None 7 2 ''B''
     \<lparr>reminders = [\<lparr>rowid = 1, chat_id = ''7'', message = ''a'', day_of_week = ''sunday'',
                     time = ''20:00'', recurring = ''yes''\<rparr>], seq = 1\<rparr>
   = (\<lparr>reminders = [\<lparr>rowid = 1, chat_id = ''7'', message = ''a'', day_of_week = ''sunday'',
                     time = ''20:00'', recurring = ''yes''\<rparr>], seq = 1\<rparr>, [NoReminderFound 2])
   \<and> sql_select_chat (toString 7) (fst (deleteReminder None 8 1
     \<lparr>reminders = [\<lparr>rowid = 1, chat_id = ''7'', message = ''a'', day_of_week = ''sunday'',
                     time = ''20:00'', recurring = ''yes''\<rparr>], seq = 1\<rparr>))
   = [\<lparr>rowid = 1, chat_id = ''7'', message = ''a'', day_of_week = ''sunday'',
                     time = ''20:00'', recurring = ''yes''\<rparr>]"
proof -
  let ?d = "\<lparr>reminders = [\<lparr>rowid = 1, chat_id = ''7'', message = ''a'', day_of_week = ''sunday'',
                     time = ''20:00'', recurring = ''yes''\<rparr>], seq = 1\<rparr>"
  have "toString 7 = ''7''" by (simp add: toString_eval)
  then have h1: "\<forall>r \<in> set (reminders ?d). rowid r = 1 \<longrightarrow>
             (\<exists>owner. owner \<noteq> (8::int) \<and> chat_id r = toString owner)"
    by (auto intro!: exI[of _ 7])
  have h2: "\<forall>r \<in> set (reminders ?d). rowid r = 2 \<longrightarrow>
             (\<exists>owner. owner \<noteq> (7::int) \<and> chat_id r = toString owner)"
    by simp
  show ?thesis
    using delete_update_not_found [OF h1, of "''x''"] delete_update_not_found [OF h2, of "''B''"]
    by (simp add: sql_select_chat_def toString_eval)
qed

lemma updateReminder_rows:
  "reminders (fst (updateReminder e chatId i m d)) =
     (case e of
        Some msg \<Rightarrow> reminders d
      | None \<Rightarrow> map (\<lambda>r. if rowid r = i \<and> chat_id r = toString chatId then r\<lparr>message := m\<rparr> else r)
                  (reminders d))"
  by (simp add: updateReminder_def db_run_def sql_update_def split: option.splits)

lemma updateReminder_seq: "seq (fst (updateReminder e chatId i m d)) = seq d"
  by (simp add: updateReminder_def db_run_def sql_update_def split: option.splits)

lemma distinct_rowid_one_match:
  "distinct (map rowid rs) \<Longrightarrow> length (filter (\<lambda>r. rowid r = i \<and> P r) rs) \<le> 1"
proof (induction rs)
  case Nil
  then show ?case by simp
next
  case (Cons r rs)
  show ?case
  proof (cases "rowid r = i")
    case True
    from Cons.prems have "rowid r \<notin> rowid ` set rs" by simp
    with True have "\<forall>x \<in> set rs. rowid x \<noteq> i" by (metis imageI)
    then have "filter (\<lambda>r. rowid r = i \<and> P r) rs = []"
      by (simp add: filter_empty_conv)
    then show ?thesis by simp
  next
    case False
    with Cons show ?thesis by simp
  qed
qed

text \<open>
  C8. \<^verbatim>\<open>/updateReminder i m\<close> of a chat, whether the store executes the statement or not,
  leaves the table with the same number of rows in the same order, and the same \<open>seq\<close>;
  every row keeps its \<^verbatim>\<open>id\<close>, \<^verbatim>\<open>chat_id\<close>, \<^verbatim>\<open>day_of_week\<close>, \<^verbatim>\<open>time\<close> and \<^verbatim>\<open>recurring\<close>;
  a row that has not both the id \<open>i\<close> and the \<^verbatim>\<open>chat_id\<close> of the chat is the same
  afterwards; and when the ids of the table are distinct at most one row has both.
\<close>

theorem update_changes_message_only:
  "length (reminders (fst (updateReminder e chatId i m d))) = length (reminders d)
   \<and> seq (fst (updateReminder e chatId i m d)) = seq d
   \<and> (\<forall>k < length (reminders d).
        rowid (reminders (fst (updateReminder e chatId i m d)) ! k) = rowid (reminders d ! k)
      \<and> chat_id (reminders (fst (updateReminder e chatId i m d)) ! k) = chat_id (reminders d ! k)
      \<and> day_of_week (reminders (fst (updateReminder e chatId i m d)) ! k) = day_of_week (reminders d ! k)
      \<and> time (reminders (fst (updateReminder e chatId i m d)) ! k) = time (reminders d ! k)
      \<and> recurring (reminders (fst (updateReminder e chatId i m d)) ! k) = recurring (reminders d ! k)
      \<and> (\<not> (rowid (reminders d ! k) = i \<and> chat_id (reminders d ! k) = toString chatId) \<longrightarrow>
           reminders (fst (updateReminder e chatId i m d)) ! k = reminders d ! k))
   \<and> (distinct (map rowid (reminders d)) \<longrightarrow>
        length (filter (\<lambda>r. rowid r = i \<and> chat_id r = toString chatId) (reminders d)) \<le> 1)"
proof -
  have frame: "length (reminders (fst (updateReminder e chatId i m d))) = length (reminders d)
   \<and> (\<forall>k < length (reminders d).
        rowid (reminders (fst (updateReminder e chatId i m d)) ! k) = rowid (reminders d ! k)
      \<and> chat_id (reminders (fst (updateReminder e chatId i m d)) ! k) = chat_id (reminders d ! k)
      \<and> day_of_week (reminders (fst (updateReminder e chatId i m d)) ! k) = day_of_week (reminders d ! k)
      \<and> time (reminders (fst (updateReminder e chatId i m d)) ! k) = time (reminders d ! k)
      \<and> recurring (reminders (fst (updateReminder e chatId i m d)) ! k) = recurring (reminders d ! k)
      \<and> (\<not> (rowid (reminders d ! k) = i \<and> chat_id (reminders d ! k) = toString chatId) \<longrightarrow>
           reminders (fst (updateReminder e chatId i m d)) ! k = reminders d ! k))"
    by (cases e) (simp_all add: updateReminder_rows)
  have one: "distinct (map rowid (reminders d)) \<longrightarrow>
        length (filter (\<lambda>r. rowid r = i \<and> chat_id r = toString chatId) (reminders d)) \<le> 1"
    using distinct_rowid_one_match[of "reminders d" i "\<lambda>r. chat_id r = toString chatId"] by blast
  from frame one updateReminder_seq[of e chatId i m d] show ?thesis by blast
qed

text \<open>Chat 7 updates its row 1 of two: the message of that row alone changes.\<close>

theorem update_changes_message_only_witness:
  "reminders (fst (updateReminder None 7 1 ''Take Out Trash''
     \<lparr>reminders =
        [\<lparr>rowid = 1, chat_id = ''7'', message = ''a'', day_of_week = ''sunday'',
          time = ''20:00'', recurring = ''yes''\<rparr>,
         \<lparr>rowid = 2, chat_id = ''7'', message = ''b'', day_of_week = ''monday'',
          time = ''09:00'', recurring = ''yes''\<rparr>],
      seq = 2\<rparr>))
   = [\<lparr>rowid = 1, chat_id = ''7'', message = ''Take Out Trash'', day_of_week = ''sunday'',
       time = ''20:00'', recurring = ''yes''\<rparr>,
      \<lparr>rowid = 2, chat_id = ''7'', message = ''b'', day_of_week = ''monday'',
       time = ''09:00'', recurring = ''yes''\<rparr>]
   \<and> length (filter (\<lambda>r. rowid r = 1 \<and> chat_id r = toString 7)
        [\<lparr>rowid = 1, chat_id = ''7'', message = ''a'', day_of_week = ''sunday'',
          time = ''20:00'', recurring = ''yes''\<rparr>,
         \<lparr>rowid = 2, chat_id = ''7'', message = ''b'', day_of_week = ''monday'',
          time = ''09:00'', recurring = ''yes''\<rparr>]) \<le> 1"
  using update_changes_message_only [of None 7 1 "''Take Out Trash''"
     "\<lparr>reminders =
        [\<lparr>rowid = 1, chat_id = ''7'', message = ''a'', day_of_week = ''sunday'',
          time = ''20:00'', recurring = ''yes''\<rparr>,
         \<lparr>rowid = 2, chat_id = ''7'', message = ''b'', day_of_week = ''monday'',
          time = ''09:00'', recurring = ''yes''\<rparr>],
      seq = 2\<rparr>"]
  by (simp add: updateReminder_def db_run_def sql_update_def toString_eval)


section \<open>Adding reminders\<close>

lemma addReminder_unfold:
  "addReminder lib errs pick chatId arg d =
     (if \<not> includes_str (toLowerCase arg) ''every'' then Inr (d, [NeedEvery])
      else (case add_parts (toLowerCase arg) of
             None \<Rightarrow> Inl TypeError
           | Some (messagePart, dayTimePart) \<Rightarrow>
               (if foundDays dayTimePart = [] then Inr (d, [NoDaysFound])
                else (case parseDate lib (timePart dayTimePart) of
                      None \<Rightarrow> Inr (d, [NoValidTime])
                    | Some parsedTime \<Rightarrow>
                        Inr (insert_days errs (toString chatId) messagePart
                               (timeStr lib parsedTime)
                               (schedule pick (enumerate 0 (foundDays dayTimePart))) d,
                             [ReminderSet (join (foundDays dayTimePart) '', '')
                                (timeStr lib parsedTime)])))))"
  by (simp add: addReminder_def add_parts_def Let_def split: list.splits option.splits)

lemma add_parts_defined:
  "includes_str txt ''every'' \<Longrightarrow> \<exists>mp dtp. add_parts txt = Some (mp, dtp)"
proof -
  assume "includes_str txt ''every''"
  then obtain a b rest where "split txt ''every'' = a # b # rest"
    using split_two[of "''every''" "txt"] by auto
  then show ?thesis by (simp add: add_parts_def)
qed

text \<open>
  Every \<open>pick\<close> runs each pending statement once, and every order of the statements is
  the one of some \<open>pick\<close>.
\<close>

lemma take_drop_nth_mset:
  "k < length xs \<Longrightarrow> mset (xs ! k # (take k xs @ drop (Suc k) xs)) = mset xs"
proof -
  assume "k < length xs"
  then have "xs = take k xs @ xs ! k # drop (Suc k) xs" by (rule id_take_nth_drop)
  then have "mset xs = mset (take k xs @ xs ! k # drop (Suc k) xs)" by simp
  then show ?thesis by simp
qed

lemma schedule_mset: "mset (schedule pick xs) = mset xs"
proof (induction pick xs rule: schedule.induct)
  case (1 pick)
  then show ?case by simp
next
  case (2 x xs)
  then show ?case by simp
next
  case (3 p pick x xs)
  let ?k = "p mod length (x # xs)"
  have k: "?k < length (x # xs)" by simp
  have "mset (schedule (p # pick) (x # xs)) =
        mset ((x # xs) ! ?k # schedule pick (take ?k (x # xs) @ drop (Suc ?k) (x # xs)))"
    by (simp add: Let_def)
  also have "\<dots> = mset ((x # xs) ! ?k # (take ?k (x # xs) @ drop (Suc ?k) (x # xs)))"
    using "3.IH"[OF refl] by simp
  also have "\<dots> = mset (x # xs)" using k by (rule take_drop_nth_mset)
  finally show ?case .
qed

lemma schedule_length: "length (schedule pick xs) = length xs"
  using schedule_mset[of pick xs] by (metis size_mset)

lemma schedule_set: "set (schedule pick xs) = set xs"
  using schedule_mset[of pick xs] by (metis set_mset_mset)

lemma schedule_single: "schedule pick [x] = [x]"
  by (cases pick) simp_all

lemma schedule_reaches: "mset ys = mset xs \<Longrightarrow> \<exists>pick. schedule pick xs = ys"
proof (induction ys arbitrary: xs)
  case Nil
  then have "xs = []" by simp
  then show ?case by (intro exI[of _ "[]"]) simp
next
  case (Cons y ys)
  then have "y \<in> set xs" by (metis list.set_intros(1) set_mset_mset)
  then obtain k where k: "k < length xs" "xs ! k = y" by (auto simp: in_set_conv_nth)
  let ?rest = "take k xs @ drop (Suc k) xs"
  have "mset (y # ?rest) = mset (y # ys)"
    using take_drop_nth_mset[OF k(1)] k(2) Cons.prems by simp
  then have "mset ys = mset ?rest" by simp
  from Cons.IH[OF this] obtain pick where pick: "schedule pick ?rest = ys" by blast
  obtain x xs' where xs: "xs = x # xs'" using k(1) by (cases xs) auto
  have "schedule (k # pick) xs = y # ys"
    using k pick unfolding xs by (simp add: Let_def)
  then show ?case by blast
qed

lemma foldr_max_ge: "(b::nat) \<le> foldr max xs b \<and> (\<forall>x \<in> set xs. x \<le> foldr max xs b)"
  by (induction xs) (auto simp: le_max_iff_disj)

lemma foldr_max_top: "\<forall>x \<in> set xs. x \<le> n \<Longrightarrow> foldr max xs n = (n::nat)"
  by (induction xs) (auto simp: max_def)

lemma max_rowid_insert:
  "max_rowid (snd (sql_insert c m dw t rc d)) = Suc (max_rowid d)"
proof -
  have "\<forall>x \<in> set (map rowid (reminders d)). x \<le> Suc (max_rowid d)"
    using foldr_max_ge[of "seq d" "map rowid (reminders d)"] by (auto simp: max_rowid_def le_Suc_eq)
  then have "foldr max (map rowid (reminders d)) (Suc (max_rowid d)) = Suc (max_rowid d)"
    by (rule foldr_max_top)
  then show ?thesis
    by (simp add: sql_insert_def max_rowid_def Let_def)
qed

lemma insert_days_rows:
  "insert_days (\<lambda>_. None) c m t stmts d =
     (if stmts = [] then d
      else \<lparr>reminders = reminders d @ new_rows (max_rowid d) c m t (map snd stmts),
            seq = max_rowid d + length stmts\<rparr>)"
proof (induction stmts arbitrary: d)
  case Nil
  then show ?case by simp
next
  case (Cons stmt stmts)
  obtain k day where stmt: "stmt = (k, day)" by (cases stmt)
  let ?d1 = "snd (sql_insert c m day t ''yes'' d)"
  have d1: "?d1 = \<lparr>reminders = reminders d @ [\<lparr>rowid = Suc (max_rowid d), chat_id = c, message = m,
                day_of_week = day, time = t, recurring = ''yes''\<rparr>], seq = Suc (max_rowid d)\<rparr>"
    by (simp add: sql_insert_def max_rowid_def Let_def)
  have top: "max_rowid ?d1 = Suc (max_rowid d)" by (rule max_rowid_insert)
  have "insert_days (\<lambda>_. None) c m t (stmt # stmts) d = insert_days (\<lambda>_. None) c m t stmts ?d1"
    by (simp add: stmt db_run_def)
  also have "\<dots> = (if stmts = [] then ?d1
      else \<lparr>reminders = reminders ?d1 @ new_rows (max_rowid ?d1) c m t (map snd stmts),
            seq = max_rowid ?d1 + length stmts\<rparr>)"
    by (rule Cons.IH)
  also have "\<dots> = \<lparr>reminders = reminders d @ new_rows (max_rowid d) c m t (map snd (stmt # stmts)),
            seq = max_rowid d + length (stmt # stmts)\<rparr>"
    unfolding top by (simp add: d1 stmt)
  finally show ?case by simp
qed

lemma new_rows_length: "length (new_rows n c m t days) = length days"
  by (induction days arbitrary: n) auto

lemma new_rows_nth:
  "j < length days \<Longrightarrow>
   new_rows n c m t days ! j =
     \<lparr>rowid = n + 1 + j, chat_id = c, message = m, day_of_week = days ! j, time = t,
      recurring = ''yes''\<rparr>"
proof (induction days arbitrary: n j)
  case Nil
  then show ?case by simp
next
  case (Cons day days)
  then show ?case by (cases j) auto
qed

lemma new_rows_rowid_above: "r \<in> set (new_rows n c m t days) \<Longrightarrow> n < rowid r"
proof (induction days arbitrary: n)
  case Nil
  then show ?case by simp
next
  case (Cons day days)
  then show ?case by (auto dest: Suc_lessD)
qed

lemma new_rows_distinct: "distinct (map rowid (new_rows n c m t days))"
proof (induction days arbitrary: n)
  case Nil
  then show ?case by simp
next
  case (Cons day days)
  have "Suc n \<notin> rowid ` set (new_rows (Suc n) c m t days)"
  proof
    assume "Suc n \<in> rowid ` set (new_rows (Suc n) c m t days)"
    then obtain r where "r \<in> set (new_rows (Suc n) c m t days)" and "rowid r = Suc n"
      by auto
    with new_rows_rowid_above[of r "Suc n" c m t days] show False by simp
  qed
  with Cons show ?case by simp
qed

lemma new_rows_days: "map day_of_week (new_rows n c m t days) = days"
  by (induction days arbitrary: n) auto

lemma max_rowid_ge: "r \<in> set (reminders d) \<Longrightarrow> rowid r \<le> max_rowid d"
  using foldr_max_ge[of "seq d" "map rowid (reminders d)"] by (simp add: max_rowid_def)

lemma add_parts_includes:
  "add_parts txt = Some x \<Longrightarrow> includes_str txt ''every''"
proof (rule ccontr)
  assume a: "add_parts txt = Some x" and "\<not> includes_str txt ''every''"
  then have "split txt ''every'' = [txt]" by (intro split_absent) simp_all
  with a show False by (simp add: add_parts_def)
qed

text \<open>The days in the order in which the store runs their statements.\<close>

lemma schedule_nil: "schedule [] xs = xs"
  by (cases xs) simp_all

lemma scheduled_days_mset:
  "mset (map snd (schedule pick (enumerate 0 days))) = mset days"
proof -
  have "mset (map snd (schedule pick (enumerate 0 days))) =
        image_mset snd (mset (schedule pick (enumerate 0 days)))"
    by (simp only: mset_map)
  also have "\<dots> = image_mset snd (mset (enumerate 0 days))"
    by (simp only: schedule_mset)
  also have "\<dots> = mset (map snd (enumerate 0 days))" by (simp only: mset_map)
  also have "\<dots> = mset days" by (simp only: map_snd_enumerate)
  finally show ?thesis .
qed

lemma scheduled_days_single: "map snd (schedule pick (enumerate 0 [day])) = [day]"
  by (simp add: schedule_single)

lemma scheduled_days_issue: "map snd (schedule [] (enumerate 0 days)) = days"
  by (simp only: schedule_nil map_snd_enumerate)

lemma addReminder_success:
  assumes "add_parts (toLowerCase arg) = Some (messagePart, dayTimePart)"
    and "foundDays dayTimePart \<noteq> []"
    and "parseDate lib (timePart dayTimePart) = Some parsedTime"
  shows "addReminder lib (\<lambda>_. None) pick chatId arg d =
           Inr (\<lparr>reminders = reminders d @
                   new_rows (max_rowid d) (toString chatId) messagePart (timeStr lib parsedTime)
                     (map snd (schedule pick (enumerate 0 (foundDays dayTimePart)))),
                 seq = max_rowid d + length (foundDays dayTimePart)\<rparr>,
                [ReminderSet (join (foundDays dayTimePart) '', '') (timeStr lib parsedTime)])"
proof -
  have ne: "schedule pick (enumerate 0 (foundDays dayTimePart)) \<noteq> []"
    using assms(2) schedule_length[of pick "enumerate 0 (foundDays dayTimePart)"]
    by (metis length_0_conv length_enumerate)
  show ?thesis
    using assms add_parts_includes[OF assms(1)] ne
    by (simp add: addReminder_unfold insert_days_rows schedule_length)
qed

lemma daysOfWeek_distinct: "distinct daysOfWeek"
  by (simp add: daysOfWeek_def)

lemma foundDays_card:
  "length (foundDays dayTimePart) =
     card {day \<in> set daysOfWeek. sublist day (toLowerCase dayTimePart)}"
proof -
  have "{day \<in> set daysOfWeek. sublist day (toLowerCase dayTimePart)} =
        {day. sublist day (toLowerCase dayTimePart)} \<inter> set daysOfWeek"
    by auto
  then show ?thesis
    by (simp add: foundDays_def includes_str_sublist distinct_length_filter[OF daysOfWeek_distinct])
qed

text \<open>
  What an accepted command stores when the store executes every \<^verbatim>\<open>INSERT\<close>, in whatever
  order: one row at the end of the table for each day found in \<^verbatim>\<open>dayTimePart\<close>, with the
  \<^verbatim>\<open>chat_id\<close> of the chat, the message, and as time the first five characters of the
  text of the converted date; the ids are pairwise distinct and above every id of the
  table before.
\<close>

lemma add_rows_for_found_days:
  assumes "add_parts (toLowerCase arg) = Some (messagePart, dayTimePart)"
    and "foundDays dayTimePart \<noteq> []"
    and "parseDate lib (timePart dayTimePart) = Some parsedTime"
    and "new = new_rows (max_rowid d) (toString chatId) messagePart
                 (take 5 (toTimeString lib (tz_kolkata lib parsedTime)))
                 (map snd (schedule pick (enumerate 0 (foundDays dayTimePart))))"
  shows "addReminder lib (\<lambda>_. None) pick chatId arg d =
           Inr (\<lparr>reminders = reminders d @ new, seq = max_rowid d + length new\<rparr>,
                [ReminderSet (join (foundDays dayTimePart) '', '')
                   (take 5 (toTimeString lib (tz_kolkata lib parsedTime)))])
       \<and> length new = card {day \<in> set daysOfWeek. sublist day (toLowerCase dayTimePart)}
       \<and> mset (map day_of_week new) = mset (foundDays dayTimePart)
       \<and> (\<forall>r \<in> set new. chat_id r = toString chatId \<and> message r = messagePart
              \<and> time r = take 5 (toTimeString lib (tz_kolkata lib parsedTime))
              \<and> recurring r = ''yes'')
       \<and> distinct (map rowid new)
       \<and> (\<forall>r \<in> set new. \<forall>r' \<in> set (reminders d). rowid r' < rowid r)"
proof -
  let ?days = "map snd (schedule pick (enumerate 0 (foundDays dayTimePart)))"
  have ms: "mset ?days = mset (foundDays dayTimePart)" by (rule scheduled_days_mset)
  then have ld: "length ?days = length (foundDays dayTimePart)" by (metis size_mset)
  have len: "length new = length (foundDays dayTimePart)"
    by (simp only: assms(4) new_rows_length ld)
  have res: "addReminder lib (\<lambda>_. None) pick chatId arg d =
           Inr (\<lparr>reminders = reminders d @ new, seq = max_rowid d + length new\<rparr>,
                [ReminderSet (join (foundDays dayTimePart) '', '')
                   (take 5 (toTimeString lib (tz_kolkata lib parsedTime)))])"
    unfolding len using addReminder_success[OF assms(1-3), of pick chatId d]
    by (simp add: assms(4) timeStr_def)
  have fields: "\<forall>r \<in> set new. chat_id r = toString chatId \<and> message r = messagePart
              \<and> time r = take 5 (toTimeString lib (tz_kolkata lib parsedTime))
              \<and> recurring r = ''yes''"
  proof
    fix r assume "r \<in> set new"
    then obtain j where "j < length new" and "r = new ! j" by (auto simp: in_set_conv_nth)
    then show "chat_id r = toString chatId \<and> message r = messagePart
              \<and> time r = take 5 (toTimeString lib (tz_kolkata lib parsedTime))
              \<and> recurring r = ''yes''"
      using len ld by (simp add: assms(4) new_rows_nth)
  qed
  have above: "\<forall>r \<in> set new. \<forall>r' \<in> set (reminders d). rowid r' < rowid r"
  proof (intro ballI)
    fix r r' assume "r \<in> set new" and "r' \<in> set (reminders d)"
    then have "max_rowid d < rowid r" and "rowid r' \<le> max_rowid d"
      by (auto simp: assms(4) dest: new_rows_rowid_above max_rowid_ge)
    then show "rowid r' < rowid r" by simp
  qed
  have days: "mset (map day_of_week new) = mset (foundDays dayTimePart)"
    by (simp only: assms(4) new_rows_days ms)
  have dist: "distinct (map rowid new)" by (simp only: assms(4) new_rows_distinct)
  have card: "length new = card {day \<in> set daysOfWeek. sublist day (toLowerCase dayTimePart)}"
    by (simp only: len foundDays_card)
  from res card days fields dist above show ?thesis by blast
qed

section \<open>The clock of a process\<close>

lemma div_3600: "(x::int) div 3600 mod 24 = (x mod 86400) div 3600 mod 24"
proof -
  have "x = 86400 * (x div 86400) + x mod 86400" by simp
  then have "x div 3600 = (3600 * (24 * (x div 86400)) + x mod 86400) div 3600" by simp
  also have "\<dots> = 24 * (x div 86400) + (x mod 86400) div 3600"
    by (simp only: div_mult_self4)
  finally show ?thesis by simp
qed

lemma div_60: "(x::int) div 60 mod 60 = (x mod 86400) div 60 mod 60"
proof -
  have "x = 86400 * (x div 86400) + x mod 86400" by simp
  then have "x div 60 = (60 * (1440 * (x div 86400)) + x mod 86400) div 60" by simp
  also have "\<dots> = 1440 * (x div 86400) + (x mod 86400) div 60"
    by (simp only: div_mult_self4)
  finally have "x div 60 mod 60 = (60 * (24 * (x div 86400)) + (x mod 86400) div 60) mod 60"
    by simp
  then show ?thesis by (simp only: mod_mult_self4)
qed


lemma hh_mm_mod: "hh_mm x = hh_mm (x mod 86400)"
  using div_3600[of x] div_60[of x] by (simp only: hh_mm_def)

lemma two_digits_length: "n < 100 \<Longrightarrow> length (two_digits n) = 2"
proof (cases "n < 10")
  case True
  then show ?thesis by (simp add: two_digits_def nat_toString.simps[of n])
next
  case False
  assume "n < 100"
  with False have "n div 10 < 10" by simp
  with False show ?thesis
    by (simp add: two_digits_def nat_toString.simps[of n] nat_toString.simps[of "n div 10"])
qed

lemma hh_mm_length: "length (hh_mm x) = 5"
proof -
  have "nat (x div 3600 mod 24) < 100" and "nat (x div 60 mod 60) < 100"
    by (simp_all add: nat_less_iff)
  then show ?thesis by (simp add: hh_mm_def two_digits_length)
qed

lemma timeStr_process:
  "timeStr (process_dates off chrono) t = hh_mm (t + off - 19800 + off)"
  by (simp add: timeStr_def process_dates_def hh_mm_length)

lemma timeStr_process_8pm:
  assumes "(t + off) mod 86400 = 72000"
  shows "timeStr (process_dates off chrono) t = hh_mm (52200 + off)"
proof -
  have "(t + off - 19800 + off) mod 86400 = ((t + off) + (off - 19800)) mod 86400"
    by (simp add: algebra_simps)
  also have "\<dots> = ((t + off) mod 86400 + (off - 19800)) mod 86400"
    by (simp only: mod_add_left_eq)
  also have "\<dots> = (72000 + (off - 19800)) mod 86400"
    by (simp only: assms)
  also have "\<dots> = (52200 + off) mod 86400"
    by (simp add: algebra_simps)
  finally have "hh_mm (t + off - 19800 + off) = hh_mm (52200 + off)"
    using hh_mm_mod[of "t + off - 19800 + off"] hh_mm_mod[of "52200 + off"] by simp
  then show ?thesis by (simp only: timeStr_process)
qed

lemma hh_mm_kolkata: "hh_mm (52200 + 19800) = ''20:00''"
  by (simp add: hh_mm_def two_digits_def toString_eval)

lemma hh_mm_utc: "hh_mm (52200 + 0) = ''14:30''"
  by (simp add: hh_mm_def two_digits_def toString_eval)

lemma utc_8pm: "timeStr utc_process 72000 = ''14:30''"
  unfolding utc_process_def using timeStr_process_8pm[of 72000 0] hh_mm_utc by simp

lemma kolkata_8pm: "timeStr kolkata_process 52200 = ''20:00''"
  unfolding kolkata_process_def using timeStr_process_8pm[of 52200 19800] hh_mm_kolkata by simp

lemma kolkata_parse: "parseDate kolkata_process ''8pm'' = Some 52200"
  by (simp add: kolkata_process_def process_dates_def)

lemma kolkata_clock: "toTimeString kolkata_process 52200 = ''20:00:00 GMT+0530''"
  by (simp add: kolkata_process_def process_dates_def hh_mm_def two_digits_def toString_eval
      gmt_offset_def)

section \<open>The time of the example\<close>

lemma waste_parts:
  "add_parts (toLowerCase ''remind to take out waste every sunday and wednesday 8pm'') =
     Some (''to take out waste'', ''sunday and wednesday 8pm'')"
  by code_simp

lemma waste_days: "foundDays ''sunday and wednesday 8pm'' = [''sunday'', ''wednesday'']"
  by code_simp

lemma waste_time: "timePart ''sunday and wednesday 8pm'' = ''8pm''"
  by code_simp

lemma utc_parse: "parseDate utc_process (timePart ''sunday and wednesday 8pm'') = Some 72000"
  by (simp add: waste_time utc_process_def process_dates_def)

lemma utc_clock: "take 5 (toTimeString utc_process 72000) = ''20:00''"
  by (simp add: utc_process_def process_dates_def hh_mm_def two_digits_def toString_eval)

lemma waste_days_found: "foundDays ''sunday and wednesday 8pm'' \<noteq> []"
  by (simp add: waste_days)

lemma waste_issue_order:
  "map snd (schedule [] (enumerate 0 [''sunday'', ''wednesday''])) = [''sunday'', ''wednesday'']"
  by (rule scheduled_days_issue)

lemma waste_other_order:
  "map snd (schedule [1] (enumerate 0 [''sunday'', ''wednesday''])) = [''wednesday'', ''sunday'']"
  by (simp add: enumerate_eq_zip upt_rec)

text \<open>
  C2. The claim is that the argument
  \<^verbatim>\<open>remind to take out waste every sunday and wednesday 8pm\<close> gives the message, the two
  days and the time 20:00 of the zone Asia/Kolkata. The handler computes the message
  \<^verbatim>\<open>to take out waste\<close>, the days \<^verbatim>\<open>sunday\<close> and \<^verbatim>\<open>wednesday\<close> and the time tokens
  \<^verbatim>\<open>8pm\<close>, as claimed. The time it stores is the text of \<^verbatim>\<open>toTimeString()\<close>, which prints the
  clock of the zone of the process: in a process of the zone UTC, where the parser reads
  \<^verbatim>\<open>8pm\<close> as 20:00 on the local clock, both rows get the time 14:30 and the reply says
  14:30, in either order of the two statements.
\<close>

theorem add_waste_in_utc_process:
  "add_parts (toLowerCase ''remind to take out waste every sunday and wednesday 8pm'') =
     Some (''to take out waste'', ''sunday and wednesday 8pm'')
   \<and> foundDays ''sunday and wednesday 8pm'' = [''sunday'', ''wednesday'']
   \<and> timePart ''sunday and wednesday 8pm'' = ''8pm''
   \<and> parseDate utc_process ''8pm'' = Some 72000
   \<and> take 5 (toTimeString utc_process 72000) = ''20:00''
   \<and> timeStr utc_process 72000 = ''14:30''
   \<and> addReminder utc_process (\<lambda>_. None) [] 7
        ''remind to take out waste every sunday and wednesday 8pm'' empty_db =
      Inr (\<lparr>reminders =
              [\<lparr>rowid = 1, chat_id = ''7'', message = ''to take out waste'',
                day_of_week = ''sunday'', time = ''14:30'', recurring = ''yes''\<rparr>,
               \<lparr>rowid = 2, chat_id = ''7'', message = ''to take out waste'',
                day_of_week = ''wednesday'', time = ''14:30'', recurring = ''yes''\<rparr>],
            seq = 2\<rparr>,
           [ReminderSet ''sunday, wednesday'' ''14:30''])
   \<and> addReminder utc_process (\<lambda>_. None) [1] 7
        ''remind to take out waste every sunday and wednesday 8pm'' empty_db =
      Inr (\<lparr>reminders =
              [\<lparr>rowid = 1, chat_id = ''7'', message = ''to take out waste'',
                day_of_week = ''wednesday'', time = ''14:30'', recurring = ''yes''\<rparr>,
               \<lparr>rowid = 2, chat_id = ''7'', message = ''to take out waste'',
                day_of_week = ''sunday'', time = ''14:30'', recurring = ''yes''\<rparr>],
            seq = 2\<rparr>,
           [ReminderSet ''sunday, wednesday'' ''14:30''])"
proof -
  have m: "max_rowid empty_db = 0" by (simp add: max_rowid_def empty_db_def)
  have p: "parseDate utc_process ''8pm'' = Some 72000"
    using utc_parse by (simp only: waste_time)
  have a: "addReminder utc_process (\<lambda>_. None) [] 7
        ''remind to take out waste every sunday and wednesday 8pm'' empty_db =
      Inr (\<lparr>reminders =
              [\<lparr>rowid = 1, chat_id = ''7'', message = ''to take out waste'',
                day_of_week = ''sunday'', time = ''14:30'', recurring = ''yes''\<rparr>,
               \<lparr>rowid = 2, chat_id = ''7'', message = ''to take out waste'',
                day_of_week = ''wednesday'', time = ''14:30'', recurring = ''yes''\<rparr>],
            seq = 2\<rparr>,
           [ReminderSet ''sunday, wednesday'' ''14:30''])"
    using addReminder_success [OF waste_parts waste_days_found utc_parse, of "[]" 7 empty_db]
    unfolding waste_days waste_issue_order utc_8pm m
    by (simp add: toString_eval empty_db_def)
  have b: "addReminder utc_process (\<lambda>_. None) [1] 7
        ''remind to take out waste every sunday and wednesday 8pm'' empty_db =
      Inr (\<lparr>reminders =
              [\<lparr>rowid = 1, chat_id = ''7'', message = ''to take out waste'',
                day_of_week = ''wednesday'', time = ''14:30'', recurring = ''yes''\<rparr>,
               \<lparr>rowid = 2, chat_id = ''7'', message = ''to take out waste'',
                day_of_week = ''sunday'', time = ''14:30'', recurring = ''yes''\<rparr>],
            seq = 2\<rparr>,
           [ReminderSet ''sunday, wednesday'' ''14:30''])"
    using addReminder_success [OF waste_parts waste_days_found utc_parse, of "[1]" 7 empty_db]
    unfolding waste_days waste_other_order utc_8pm m
    by (simp add: toString_eval empty_db_def)
  from waste_parts waste_days waste_time p utc_clock utc_8pm a b show ?thesis by blast
qed

text \<open>
  In a process of the zone Asia/Kolkata the example of C2 stores the time 20:00, in
  whatever order the store runs the two statements.
\<close>

lemma add_waste_in_kolkata_process:
  "addReminder kolkata_process (\<lambda>_. None) [] 7
        ''remind to take out waste every sunday and wednesday 8pm'' empty_db =
      Inr (\<lparr>reminders =
              [\<lparr>rowid = 1, chat_id = ''7'', message = ''to take out waste'',
                day_of_week = ''sunday'', time = ''20:00'', recurring = ''yes''\<rparr>,
               \<lparr>rowid = 2, chat_id = ''7'', message = ''to take out waste'',
                day_of_week = ''wednesday'', time = ''20:00'', recurring = ''yes''\<rparr>],
            seq = 2\<rparr>,
           [ReminderSet ''sunday, wednesday'' ''20:00''])
   \<and> addReminder kolkata_process (\<lambda>_. None) [1] 7
        ''remind to take out waste every sunday and wednesday 8pm'' empty_db =
      Inr (\<lparr>reminders =
              [\<lparr>rowid = 1, chat_id = ''7'', message = ''to take out waste'',
                day_of_week = ''wednesday'', time = ''20:00'', recurring = ''yes''\<rparr>,
               \<lparr>rowid = 2, chat_id = ''7'', message = ''to take out waste'',
                day_of_week = ''sunday'', time = ''20:00'', recurring = ''yes''\<rparr>],
            seq = 2\<rparr>,
           [ReminderSet ''sunday, wednesday'' ''20:00''])"
proof -
  have p: "parseDate kolkata_process (timePart ''sunday and wednesday 8pm'') = Some 52200"
    using kolkata_parse by (simp only: waste_time)
  have m: "max_rowid empty_db = 0" by (simp add: max_rowid_def empty_db_def)
  have a: "addReminder kolkata_process (\<lambda>_. None) [] 7
        ''remind to take out waste every sunday and wednesday 8pm'' empty_db =
      Inr (\<lparr>reminders =
              [\<lparr>rowid = 1, chat_id = ''7'', message = ''to take out waste'',
                day_of_week = ''sunday'', time = ''20:00'', recurring = ''yes''\<rparr>,
               \<lparr>rowid = 2, chat_id = ''7'', message = ''to take out waste'',
                day_of_week = ''wednesday'', time = ''20:00'', recurring = ''yes''\<rparr>],
            seq = 2\<rparr>,
           [ReminderSet ''sunday, wednesday'' ''20:00''])"
    using addReminder_success [OF waste_parts waste_days_found p, of "[]" 7 empty_db]
    unfolding waste_days waste_issue_order kolkata_8pm m
    by (simp add: toString_eval empty_db_def)
  have b: "addReminder kolkata_process (\<lambda>_. None) [1] 7
        ''remind to take out waste every sunday and wednesday 8pm'' empty_db =
      Inr (\<lparr>reminders =
              [\<lparr>rowid = 1, chat_id = ''7'', message = ''to take out waste'',
                day_of_week = ''wednesday'', time = ''20:00'', recurring = ''yes''\<rparr>,
               \<lparr>rowid = 2, chat_id = ''7'', message = ''to take out waste'',
                day_of_week = ''sunday'', time = ''20:00'', recurring = ''yes''\<rparr>],
            seq = 2\<rparr>,
           [ReminderSet ''sunday, wednesday'' ''20:00''])"
    using addReminder_success [OF waste_parts waste_days_found p, of "[1]" 7 empty_db]
    unfolding waste_days waste_other_order kolkata_8pm m
    by (simp add: toString_eval empty_db_def)
  from a b show ?thesis by simp
qed

section \<open>Rejected commands\<close>

lemma lower_char_not_upper: "\<not> is_upper (lower_char c)"
proof (cases "is_upper c")
  case True
  then have r: "(65 \<le> (of_char c :: nat) \<and> (of_char c :: nat) \<le> 90)
      \<or> (192 \<le> (of_char c :: nat) \<and> (of_char c :: nat) \<le> 222 \<and> (of_char c :: nat) \<noteq> 215)"
    by (simp add: is_upper_def Let_def)
  then have "((of_char c :: nat) + 32) mod 256 = of_char c + 32" by auto
  with True r show ?thesis
    by (auto simp: lower_char_def is_upper_def Let_def)
next
  case False
  then show ?thesis by (simp add: lower_char_def)
qed

lemma toLowerCase_no_upper: "c \<in> set (toLowerCase s) \<Longrightarrow> \<not> is_upper c"
  by (auto simp: toLowerCase_def lower_char_not_upper)

lemma toLowerCase_fixed: "\<forall>c \<in> set s. \<not> is_upper c \<Longrightarrow> toLowerCase s = s"
  by (induction s) (auto simp: toLowerCase_def lower_char_def)

lemma toLowerCase_idem: "toLowerCase (toLowerCase s) = toLowerCase s"
  by (rule toLowerCase_fixed) (simp add: toLowerCase_no_upper)

lemma trim_prefix_suffix: "sublist (trim s) s"
proof -
  have "suffix (dropWhile is_space s) s" by (rule suffix_dropWhile)
  moreover have "prefix (rev (dropWhile is_space (rev (dropWhile is_space s)))) (dropWhile is_space s)"
    using suffix_dropWhile[of is_space "rev (dropWhile is_space s)"]
    by (simp add: suffix_to_prefix)
  ultimately show ?thesis
    unfolding trim_def by (meson prefix_imp_sublist suffix_imp_sublist sublist_order.order_trans)
qed

lemma strip_remind_suffix: "suffix (strip_remind s) s"
proof (cases "prefix ''remind'' s")
  case True
  have "suffix (dropWhile is_space (drop 6 s)) (drop 6 s)" by (rule suffix_dropWhile)
  then have "suffix (dropWhile is_space (drop 6 s)) s"
    using suffix_drop suffix_order.order_trans by blast
  with True show ?thesis by (simp add: strip_remind_def)
next
  case False
  then show ?thesis by (simp add: strip_remind_def)
qed

lemma split_hd_prefix: "sep \<noteq> [] \<Longrightarrow> prefix (hd (split s sep)) s"
proof (cases "includes_str s sep")
  case True
  assume "sep \<noteq> []"
  from split_first[OF this True] show ?thesis by auto
next
  case False
  assume "sep \<noteq> []"
  from split_absent[OF this False] show ?thesis by simp
qed

lemma add_parts_sublist:
  assumes "add_parts txt = Some (mp, dtp)"
  shows "sublist mp txt \<and> sublist dtp txt"
proof -
  have ne: "''every'' \<noteq> []" by simp
  have inc: "includes_str txt ''every''" using assms by (rule add_parts_includes)
  from split_first[OF ne inc] obtain a r where
    ar: "txt = a @ ''every'' @ r" "split txt ''every'' = a # split r ''every''"
    by blast
  obtain b rest where b: "split r ''every'' = b # rest"
    using split_nonempty[OF ne, of r] by (cases "split r ''every''") auto
  have pb: "prefix b r" using split_hd_prefix[OF ne, of r] b by simp
  from assms ar(2) b have mp: "mp = trim (strip_remind a)" and dtp: "dtp = trim b"
    by (simp_all add: add_parts_def)
  have "sublist a txt" unfolding ar(1) by (rule prefix_imp_sublist) simp
  moreover have "sublist (strip_remind a) a" using strip_remind_suffix by (rule suffix_imp_sublist)
  moreover have "sublist (trim (strip_remind a)) (strip_remind a)" by (rule trim_prefix_suffix)
  ultimately have 1: "sublist mp txt" unfolding mp
    by (meson sublist_order.order_trans)
  obtain r' where r': "r = b @ r'" using pb by (auto simp: prefix_def)
  have "sublist b txt" unfolding ar(1) r'
    using sublist_appendI[of b "a @ ''every''" r'] by simp
  moreover have "sublist (trim b) b" by (rule trim_prefix_suffix)
  ultimately have 2: "sublist dtp txt" unfolding dtp by (meson sublist_order.order_trans)
  from 1 2 show ?thesis by simp
qed

lemma sublist_set: "sublist xs ys \<Longrightarrow> set xs \<subseteq> set ys"
  by (auto simp: sublist_def)

lemma add_parts_lower:
  assumes "add_parts (toLowerCase arg) = Some (mp, dtp)"
  shows "(\<forall>c \<in> set mp. \<not> is_upper c) \<and> toLowerCase dtp = dtp"
proof -
  from add_parts_sublist[OF assms] have "set mp \<subseteq> set (toLowerCase arg)" and "set dtp \<subseteq> set (toLowerCase arg)"
    by (auto dest: sublist_set)
  then have "\<forall>c \<in> set mp. \<not> is_upper c" and "\<forall>c \<in> set dtp. \<not> is_upper c"
    using toLowerCase_no_upper by blast+
  then show ?thesis by (simp add: toLowerCase_fixed)
qed

lemma no_day_in_arg:
  assumes "add_parts (toLowerCase arg) = Some (mp, dtp)"
    and "\<forall>day \<in> set daysOfWeek. \<not> includes_str (toLowerCase arg) day"
  shows "foundDays dtp = []"
proof -
  have "\<not> includes_str (toLowerCase dtp) day" if "day \<in> set daysOfWeek" for day
  proof
    assume "includes_str (toLowerCase dtp) day"
    then have "sublist day dtp" using add_parts_lower[OF assms(1)] by (simp add: includes_str_sublist)
    moreover have "sublist dtp (toLowerCase arg)" using add_parts_sublist[OF assms(1)] by simp
    ultimately have "sublist day (toLowerCase arg)" by (meson sublist_order.order_trans)
    with assms(2) that show False by (simp add: includes_str_sublist)
  qed
  then show ?thesis by (simp add: foundDays_def filter_empty_conv)
qed

lemma addReminder_never_throws: "addReminder lib errs pick chatId arg d \<noteq> Inl TypeError"
proof (cases "includes_str (toLowerCase arg) ''every''")
  case True
  from add_parts_defined[OF True] obtain mp dtp where "add_parts (toLowerCase arg) = Some (mp, dtp)"
    by blast
  with True show ?thesis
    by (simp add: addReminder_unfold split: option.splits)
next
  case False
  then show ?thesis by (simp add: addReminder_unfold)
qed

text \<open>
  C6. Whatever the outcomes of the store, the handler of \<^verbatim>\<open>/addReminder\<close> answers
  \<open>NeedEvery\<close> when the lower-cased argument has no \<^verbatim>\<open>every\<close>, \<open>NoDaysFound\<close> when it has
  one and no day name occurs in \<^verbatim>\<open>dayTimePart\<close> (as when none occurs in the whole
  argument), and \<open>NoValidTime\<close> when a day is found and the time parser reads nothing in
  the time tokens; in each case the database is the one before. Conversely, a run that
  ends with one of the three replies has changed nothing.
\<close>

theorem rejected_add_leaves_store:
  "(\<not> includes_str (toLowerCase arg) ''every'' \<longrightarrow>
      addReminder lib errs pick chatId arg d = Inr (d, [NeedEvery]))
   \<and> (includes_str (toLowerCase arg) ''every''
        \<and> (\<forall>day \<in> set daysOfWeek. \<not> includes_str (toLowerCase arg) day) \<longrightarrow>
      addReminder lib errs pick chatId arg d = Inr (d, [NoDaysFound]))
   \<and> (\<forall>messagePart dayTimePart.
        add_parts (toLowerCase arg) = Some (messagePart, dayTimePart)
        \<and> foundDays dayTimePart = [] \<longrightarrow>
      addReminder lib errs pick chatId arg d = Inr (d, [NoDaysFound]))
   \<and> (\<forall>messagePart dayTimePart.
        add_parts (toLowerCase arg) = Some (messagePart, dayTimePart)
        \<and> foundDays dayTimePart \<noteq> [] \<and> parseDate lib (timePart dayTimePart) = None \<longrightarrow>
      addReminder lib errs pick chatId arg d = Inr (d, [NoValidTime]))
   \<and> (\<forall>d' rs. addReminder lib errs pick chatId arg d = Inr (d', rs)
        \<and> (rs = [NeedEvery] \<or> rs = [NoDaysFound] \<or> rs = [NoValidTime]) \<longrightarrow> d' = d)"
proof -
  have 1: "\<not> includes_str (toLowerCase arg) ''every'' \<longrightarrow>
      addReminder lib errs pick chatId arg d = Inr (d, [NeedEvery])"
    by (simp add: addReminder_unfold)
  have 3: "\<forall>messagePart dayTimePart.
        add_parts (toLowerCase arg) = Some (messagePart, dayTimePart)
        \<and> foundDays dayTimePart = [] \<longrightarrow>
      addReminder lib errs pick chatId arg d = Inr (d, [NoDaysFound])"
    using add_parts_includes[of "toLowerCase arg"] by (auto simp: addReminder_unfold)
  have 2: "includes_str (toLowerCase arg) ''every''
        \<and> (\<forall>day \<in> set daysOfWeek. \<not> includes_str (toLowerCase arg) day) \<longrightarrow>
      addReminder lib errs pick chatId arg d = Inr (d, [NoDaysFound])"
  proof
    assume a: "includes_str (toLowerCase arg) ''every''
        \<and> (\<forall>day \<in> set daysOfWeek. \<not> includes_str (toLowerCase arg) day)"
    then obtain mp dtp where p: "add_parts (toLowerCase arg) = Some (mp, dtp)"
      using add_parts_defined by blast
    with a have "foundDays dtp = []" by (intro no_day_in_arg[OF p]) simp
    with p 3 show "addReminder lib errs pick chatId arg d = Inr (d, [NoDaysFound])" by blast
  qed
  have 4: "\<forall>messagePart dayTimePart.
        add_parts (toLowerCase arg) = Some (messagePart, dayTimePart)
        \<and> foundDays dayTimePart \<noteq> [] \<and> parseDate lib (timePart dayTimePart) = None \<longrightarrow>
      addReminder lib errs pick chatId arg d = Inr (d, [NoValidTime])"
    using add_parts_includes[of "toLowerCase arg"] by (auto simp: addReminder_unfold)
  have 5: "\<forall>d' rs. addReminder lib errs pick chatId arg d = Inr (d', rs)
        \<and> (rs = [NeedEvery] \<or> rs = [NoDaysFound] \<or> rs = [NoValidTime]) \<longrightarrow> d' = d"
    by (auto simp: addReminder_unfold split: if_splits option.splits)
  from 1 2 3 4 5 show ?thesis by blast
qed

lemma reject_every: "\<not> includes_str (toLowerCase ''remind to take out waste on sunday 8pm'') ''every''"
  by code_simp

lemma reject_days_inc: "includes_str (toLowerCase ''remind to rest every day 8pm'') ''every''"
  by code_simp

lemma reject_days_none:
  "\<forall>day \<in> set daysOfWeek. \<not> includes_str (toLowerCase ''remind to rest every day 8pm'') day"
  by code_simp

lemma reject_time_parts:
  "add_parts (toLowerCase ''remind to rest every Sunday at noon'') = Some (''to rest'', ''sunday at noon'')"
  by code_simp

lemma reject_time_days: "foundDays ''sunday at noon'' = [''sunday'']"
  by code_simp

lemma reject_time_part: "timePart ''sunday at noon'' = ''''"
  by code_simp

text \<open>One argument for each of the three rejections, on the empty table.\<close>

theorem rejected_add_leaves_store_witness:
  "addReminder ist_dates (\<lambda>_. None) [] 7 ''remind to take out waste on sunday 8pm'' empty_db
     = Inr (empty_db, [NeedEvery])
   \<and> addReminder ist_dates (\<lambda>_. None) [] 7 ''remind to rest every day 8pm'' empty_db
     = Inr (empty_db, [NoDaysFound])
   \<and> addReminder ist_dates (\<lambda>_. None) [] 7 ''remind to rest every Sunday at noon'' empty_db
     = Inr (empty_db, [NoValidTime])"
proof -
  have p: "parseDate ist_dates (timePart ''sunday at noon'') = None"
    by (simp add: reject_time_part ist_dates_def)
  have d: "foundDays ''sunday at noon'' \<noteq> []" by (simp add: reject_time_days)
  show ?thesis
    using rejected_add_leaves_store [of "''remind to take out waste on sunday 8pm''" ist_dates "\<lambda>_. None" "[]" 7 empty_db]
      rejected_add_leaves_store [of "''remind to rest every day 8pm''" ist_dates "\<lambda>_. None" "[]" 7 empty_db]
      rejected_add_leaves_store [of "''remind to rest every Sunday at noon''" ist_dates "\<lambda>_. None" "[]" 7 empty_db]
      reject_every reject_days_inc reject_days_none reject_time_parts p d
    by blast
qed

section \<open>The days of a reminder\<close>

text \<open>
  C9. The days found in \<^verbatim>\<open>dayTimePart\<close> are exactly the names of \<^verbatim>\<open>daysOfWeek\<close> that
  occur somewhere in its lower-cased text, inside a longer word or not; each is listed
  once, and the list is \<^verbatim>\<open>daysOfWeek\<close> with the other names left out, so its order is that
  of the week whatever the order in the text; the case of the text does not matter; and
  when no name occurs the handler answers \<open>NoDaysFound\<close> and leaves the database.
\<close>

theorem foundDays_canonical:
  "set (foundDays dayTimePart) = {day \<in> set daysOfWeek. sublist day (toLowerCase dayTimePart)}
   \<and> distinct (foundDays dayTimePart)
   \<and> subseq (foundDays dayTimePart) daysOfWeek
   \<and> foundDays (toLowerCase dayTimePart) = foundDays dayTimePart
   \<and> (\<forall>messagePart. add_parts (toLowerCase arg) = Some (messagePart, dayTimePart)
         \<and> foundDays dayTimePart = [] \<longrightarrow>
       addReminder lib errs pick chatId arg d = Inr (d, [NoDaysFound]))"
proof -
  have 1: "set (foundDays dayTimePart) =
             {day \<in> set daysOfWeek. sublist day (toLowerCase dayTimePart)}"
    by (auto simp: foundDays_def includes_str_sublist)
  have 2: "distinct (foundDays dayTimePart)"
    by (simp add: foundDays_def daysOfWeek_distinct)
  have 3: "subseq (foundDays dayTimePart) daysOfWeek"
    by (simp add: foundDays_def)
  have 4: "foundDays (toLowerCase dayTimePart) = foundDays dayTimePart"
    by (simp add: foundDays_def toLowerCase_idem)
  have 5: "\<forall>messagePart. add_parts (toLowerCase arg) = Some (messagePart, dayTimePart)
         \<and> foundDays dayTimePart = [] \<longrightarrow>
       addReminder lib errs pick chatId arg d = Inr (d, [NoDaysFound])"
    using add_parts_includes[of "toLowerCase arg"] by (auto simp: addReminder_unfold)
  from 1 2 3 4 5 show ?thesis by blast
qed

lemma inside_words_days: "foundDays ''xWednesdayx then SUNDAY 8pm'' = [''sunday'', ''wednesday'']"
  by code_simp

lemma no_days_parts: "add_parts (toLowerCase ''remind to rest every morning 8pm'') = Some (''to rest'', ''morning 8pm'')"
  by code_simp

lemma no_days_found: "foundDays ''morning 8pm'' = []"
  by code_simp

text \<open>
  Wednesday inside a longer word and before Sunday, in mixed case; and an argument with
  no day.
\<close>

theorem foundDays_canonical_witness:
  "foundDays ''xWednesdayx then SUNDAY 8pm'' = [''sunday'', ''wednesday'']
   \<and> subseq [''sunday'', ''wednesday''] daysOfWeek
   \<and> addReminder ist_dates (\<lambda>_. None) [] 7 ''remind to rest every morning 8pm'' empty_db
       = Inr (empty_db, [NoDaysFound])"
  using foundDays_canonical [of "''xWednesdayx then SUNDAY 8pm''" "''''" ist_dates "\<lambda>_. None" "[]" 7 empty_db]
    foundDays_canonical [of "''morning 8pm''" "''remind to rest every morning 8pm''" ist_dates "\<lambda>_. None" "[]" 7 empty_db]
    no_days_parts no_days_found
  unfolding inside_words_days
  by blast

section \<open>The case of the messages\<close>

lemma insert_days_rows_any:
  "r \<in> set (reminders (insert_days errs c m t stmts d)) \<Longrightarrow>
   r \<in> set (reminders d) \<or> message r = m"
proof (induction stmts arbitrary: d)
  case Nil
  then show ?case by simp
next
  case (Cons stmt stmts)
  obtain k day where stmt: "stmt = (k, day)" by (cases stmt)
  let ?d1 = "snd (db_run (errs k) (sql_insert c m day t ''yes'') d)"
  from Cons.prems have "r \<in> set (reminders (insert_days errs c m t stmts ?d1))"
    by (simp add: stmt)
  then have "r \<in> set (reminders ?d1) \<or> message r = m" by (rule Cons.IH)
  moreover have "r \<in> set (reminders ?d1) \<Longrightarrow> r \<in> set (reminders d) \<or> message r = m"
    by (cases "errs k") (auto simp: db_run_def sql_insert_def Let_def)
  ultimately show ?case by blast
qed

lemma sql_delete_subset: "set (reminders (snd (sql_delete id_eq c d))) \<subseteq> set (reminders d)"
  by (auto simp: sql_delete_def Let_def)

lemma db_run_delete_subset:
  "set (reminders (snd (db_run e (sql_delete id_eq c) d))) \<subseteq> set (reminders d)"
  using sql_delete_subset[of id_eq c d] by (cases e) (auto simp: db_run_def)

lemma deleteReminder_subset:
  "set (reminders (fst (deleteReminder e chatId i d))) \<subseteq> set (reminders d)"
  using db_run_delete_subset[of e "\<lambda>k. k = i" "toString chatId" d]
  by (auto simp: deleteReminder_def split: prod.splits sum.splits if_splits)

lemma delete_each_subset:
  "set (reminders (fst (delete_each text_id errs k c toks d))) \<subseteq> set (reminders d)"
proof (induction toks arbitrary: k d)
  case Nil
  then show ?case by simp
next
  case (Cons tok toks)
  let ?d1 = "snd (db_run (errs k) (sql_delete (\<lambda>i. text_id tok = Some i) c) d)"
  have "fst (delete_each text_id errs k c (tok # toks) d) =
        fst (delete_each text_id errs (Suc k) c toks ?d1)"
    by (simp split: prod.splits sum.splits)
  moreover have "set (reminders (fst (delete_each text_id errs (Suc k) c toks ?d1))) \<subseteq> set (reminders ?d1)"
    by (rule Cons.IH)
  moreover have "set (reminders ?d1) \<subseteq> set (reminders d)" by (rule db_run_delete_subset)
  ultimately show ?case by auto
qed

lemma deleteReminders_subset:
  "set (reminders (fst (deleteReminders text_id errs chatId arg d))) \<subseteq> set (reminders d)"
  using delete_each_subset[of text_id errs 0 "toString chatId" "reminderIds arg" d]
  by (simp add: deleteReminders_def)

text \<open>
  C10. Every row that a run of the handler of \<^verbatim>\<open>/addReminder\<close> adds to the table has a
  message without upper-case letters, one that \<^verbatim>\<open>toLowerCase()\<close> leaves as it is, whatever
  the outcomes and the order of the store; the handlers of
  \<^verbatim>\<open>/deleteReminder\<close> and \<^verbatim>\<open>/deleteReminders\<close> leave no row in the table that was not
  there; and an \<^verbatim>\<open>/updateReminder\<close> that the store executes gives every row it matches the
  new message as it was written. So a message with an upper-case letter comes from an
  update.
\<close>

theorem add_stores_lower_case_update_verbatim:
  "(\<forall>d' rs r. addReminder lib errs pick chatId arg d = Inr (d', rs)
       \<and> r \<in> set (reminders d') \<and> r \<notin> set (reminders d) \<longrightarrow>
     (\<forall>c \<in> set (message r). \<not> is_upper c) \<and> toLowerCase (message r) = message r)
   \<and> set (reminders (fst (deleteReminder e chatId i d))) \<subseteq> set (reminders d)
   \<and> set (reminders (fst (deleteReminders text_id errs' chatId arg' d))) \<subseteq> set (reminders d)
   \<and> (\<forall>k < length (reminders d).
        rowid (reminders d ! k) = i \<and> chat_id (reminders d ! k) = toString chatId \<longrightarrow>
        message (reminders (fst (updateReminder None chatId i newMessage d)) ! k) = newMessage)"
proof -
  have 1: "\<forall>d' rs r. addReminder lib errs pick chatId arg d = Inr (d', rs)
       \<and> r \<in> set (reminders d') \<and> r \<notin> set (reminders d) \<longrightarrow>
     (\<forall>c \<in> set (message r). \<not> is_upper c) \<and> toLowerCase (message r) = message r"
  proof (intro allI impI)
    fix d' rs r
    assume a: "addReminder lib errs pick chatId arg d = Inr (d', rs)
       \<and> r \<in> set (reminders d') \<and> r \<notin> set (reminders d)"
    then have "d' \<noteq> d" by auto
    with a obtain mp dtp p where
      parts: "add_parts (toLowerCase arg) = Some (mp, dtp)"
      and d': "d' = insert_days errs (toString chatId) mp (timeStr lib p)
                     (schedule pick (enumerate 0 (foundDays dtp))) d"
      by (auto simp: addReminder_unfold split: if_splits option.splits)
    from a d' have "message r = mp"
      using insert_days_rows_any[of r errs "toString chatId" mp "timeStr lib p"
          "schedule pick (enumerate 0 (foundDays dtp))" d]
      by blast
    then show "(\<forall>c \<in> set (message r). \<not> is_upper c) \<and> toLowerCase (message r) = message r"
      using add_parts_lower[OF parts] by (simp add: toLowerCase_fixed)
  qed
  have 4: "\<forall>k < length (reminders d).
        rowid (reminders d ! k) = i \<and> chat_id (reminders d ! k) = toString chatId \<longrightarrow>
        message (reminders (fst (updateReminder None chatId i newMessage d)) ! k) = newMessage"
    by (simp add: updateReminder_rows)
  from 1 4 deleteReminder_subset[of e chatId i d]
    deleteReminders_subset[of text_id errs' chatId arg' d]
  show ?thesis by blast
qed

lemma mom_days: "foundDays ''monday 8pm'' = [''monday'']"
  by code_simp

lemma mom_time: "timePart ''monday 8pm'' = ''8pm''"
  by code_simp

lemma cafe_parts:
  "add_parts (toLowerCase (''Remind CAF'' @ [CHR 0xC9] @ '' every Monday 8pm'')) =
     Some (''caf'' @ [CHR 0xE9], ''monday 8pm'')"
  by code_simp

lemma cafe_lower: "filter is_upper (''caf'' @ [CHR 0xE9]) = []"
  by code_simp

lemma cafe_upper: "is_upper (CHR 0xC9)"
  by code_simp

lemma trim_no_break_space: "trim ([CHR 0xA0] @ '' 8pm '' @ [CHR 0xA0]) = ''8pm''"
  by code_simp

lemma cafe_add:
  "addReminder ist_dates (\<lambda>_. None) [] 7 (''Remind CAF'' @ [CHR 0xC9] @ '' every Monday 8pm'')
     empty_db =
     Inr (\<lparr>reminders = [\<lparr>rowid = 1, chat_id = ''7'', message = ''caf'' @ [CHR 0xE9],
                          day_of_week = ''monday'', time = ''20:00'', recurring = ''yes''\<rparr>],
           seq = 1\<rparr>,
          [ReminderSet ''monday'' ''20:00''])"
proof -
  have days: "foundDays ''monday 8pm'' \<noteq> []" by (simp add: mom_days)
  have p: "parseDate ist_dates (timePart ''monday 8pm'') = Some (0, 20, 0)"
    by (simp add: mom_time ist_dates_def)
  have t: "timeStr ist_dates (0, 20, 0) = ''20:00''"
    by (simp add: timeStr_def ist_dates_def two_digits_def toString_eval)
  have m: "max_rowid empty_db = 0" by (simp add: max_rowid_def empty_db_def)
  show ?thesis
    using addReminder_success [OF cafe_parts days p, of "[]" 7 empty_db]
    unfolding mom_days scheduled_days_single t m
    by (simp add: toString_eval empty_db_def)
qed

text \<open>
  The argument \<^verbatim>\<open>Remind CAF\<close> with the letter U+00C9, \<^verbatim>\<open>every Monday 8pm\<close>, stores
  \<^verbatim>\<open>caf\<close> with the letter U+00E9; the update to \<^verbatim>\<open>Caf\<close> with U+00C9 stores that text.
\<close>

theorem add_stores_lower_case_update_verbatim_witness:
  "filter is_upper (''caf'' @ [CHR 0xE9]) = []
   \<and> toLowerCase (''caf'' @ [CHR 0xE9]) = ''caf'' @ [CHR 0xE9]
   \<and> message (reminders (fst (updateReminder None 7 1 (''Caf'' @ [CHR 0xC9])
        \<lparr>reminders = [\<lparr>rowid = 1, chat_id = ''7'', message = ''caf'' @ [CHR 0xE9],
                        day_of_week = ''monday'', time = ''20:00'', recurring = ''yes''\<rparr>],
         seq = 1\<rparr>)) ! 0) = ''Caf'' @ [CHR 0xC9]
   \<and> is_upper (CHR 0xC9)"
proof -
  let ?r = "\<lparr>rowid = 1, chat_id = ''7'', message = ''caf'' @ [CHR 0xE9],
             day_of_week = ''monday'', time = ''20:00'', recurring = ''yes''\<rparr>"
  let ?D = "\<lparr>reminders = [?r], seq = 1\<rparr>"
  have new: "?r \<in> set (reminders ?D) \<and> ?r \<notin> set (reminders empty_db)"
    by (simp add: empty_db_def)
  have own: "rowid (reminders ?D ! 0) = 1 \<and> chat_id (reminders ?D ! 0) = toString 7"
    by (simp add: toString_eval)
  have 1: "(\<forall>c \<in> set (message ?r). \<not> is_upper c) \<and> toLowerCase (message ?r) = message ?r"
    using add_stores_lower_case_update_verbatim
      [where lib = ist_dates and errs = "\<lambda>_. None" and pick = "[]" and chatId = 7
         and arg = "''Remind CAF'' @ [CHR 0xC9] @ '' every Monday 8pm''" and d = empty_db
         and e = None and i = 1 and text_id = "\<lambda>_. None" and errs' = "\<lambda>_. None"
         and arg' = "''1''" and newMessage = "''Caf'' @ [CHR 0xC9]"]
      cafe_add new by blast
  have 2: "message (reminders (fst (updateReminder None 7 1 (''Caf'' @ [CHR 0xC9]) ?D)) ! 0)
             = ''Caf'' @ [CHR 0xC9]"
    using add_stores_lower_case_update_verbatim
      [where lib = ist_dates and errs = "\<lambda>_. None" and pick = "[]" and chatId = 7
         and arg = "''x''" and d = ?D and e = None
         and i = 1 and text_id = "\<lambda>_. None" and errs' = "\<lambda>_. None" and arg' = "''1''"
         and newMessage = "''Caf'' @ [CHR 0xC9]"]
      own by simp
  from 1 have c: "(\<forall>c \<in> set (''caf'' @ [CHR 0xE9]). \<not> is_upper c)
      \<and> toLowerCase (''caf'' @ [CHR 0xE9]) = ''caf'' @ [CHR 0xE9]"
    by simp
  from c have 5: "\<forall>c \<in> set (''caf'' @ [CHR 0xE9]). \<not> is_upper c"
    by (rule conjunct1)
  from c have 4: "toLowerCase (''caf'' @ [CHR 0xE9]) = ''caf'' @ [CHR 0xE9]"
    by (rule conjunct2)
  from 5 have 3: "filter is_upper (''caf'' @ [CHR 0xE9]) = []"
    by (simp only: filter_empty_conv)
  from 2 3 4 cafe_upper show ?thesis by simp
qed

section \<open>A second occurrence of every\<close>

lemma second_every_split:
  "split (toLowerCase ''remind to call mom every monday 8pm every friday'') ''every'' =
     [''remind to call mom '', '' monday 8pm '', '' friday'']"
  by code_simp

lemma second_every_parts:
  "add_parts (toLowerCase ''remind to call mom every monday 8pm every friday'') =
     Some (''to call mom'', ''monday 8pm'')"
  by code_simp

text \<open>
  C3. The claim is that \<^verbatim>\<open>dayTimePart\<close> is all the text after the first \<^verbatim>\<open>every\<close>, a
  second \<^verbatim>\<open>every\<close> and what follows it included. On the argument
  \<^verbatim>\<open>remind to call mom every monday 8pm every friday\<close> the split has three pieces, the
  handler takes the first two, and \<^verbatim>\<open>dayTimePart\<close> is \<^verbatim>\<open>monday 8pm\<close>: Friday is not found
  and one reminder is created, for Monday.
\<close>

theorem second_every_is_dropped:
  "split (toLowerCase ''remind to call mom every monday 8pm every friday'') ''every'' =
     [''remind to call mom '', '' monday 8pm '', '' friday'']
   \<and> add_parts (toLowerCase ''remind to call mom every monday 8pm every friday'') =
     Some (''to call mom'', ''monday 8pm'')
   \<and> addReminder ist_dates (\<lambda>_. None) pick 7 ''remind to call mom every monday 8pm every friday''
       empty_db =
     Inr (\<lparr>reminders = [\<lparr>rowid = 1, chat_id = ''7'', message = ''to call mom'',
                          day_of_week = ''monday'', time = ''20:00'', recurring = ''yes''\<rparr>],
           seq = 1\<rparr>,
          [ReminderSet ''monday'' ''20:00''])"
proof -
  have days: "foundDays ''monday 8pm'' \<noteq> []" by (simp add: mom_days)
  have p: "parseDate ist_dates (timePart ''monday 8pm'') = Some (0, 20, 0)"
    by (simp add: mom_time ist_dates_def)
  have t: "timeStr ist_dates (0, 20, 0) = ''20:00''"
    by (simp add: timeStr_def ist_dates_def two_digits_def toString_eval)
  have m: "max_rowid empty_db = 0" by (simp add: max_rowid_def empty_db_def)
  have "addReminder ist_dates (\<lambda>_. None) pick 7 ''remind to call mom every monday 8pm every friday''
       empty_db =
     Inr (\<lparr>reminders = [\<lparr>rowid = 1, chat_id = ''7'', message = ''to call mom'',
                          day_of_week = ''monday'', time = ''20:00'', recurring = ''yes''\<rparr>],
           seq = 1\<rparr>,
          [ReminderSet ''monday'' ''20:00''])"
    using addReminder_success [OF second_every_parts days p, of pick 7 empty_db]
    unfolding mom_days scheduled_days_single t m
    by (simp add: toString_eval empty_db_def)
  with second_every_split second_every_parts show ?thesis by simp
qed

lemma second_every_rest:
  "toLowerCase ''remind to call mom every monday 8pm every friday'' =
     ''remind to call mom '' @ ''every'' @ '' monday 8pm every friday''"
  by code_simp

lemma second_every_rest_days: "foundDays '' monday 8pm every friday'' = [''monday'', ''friday'']"
  by code_simp

lemma second_every_rest_time: "timePart '' monday 8pm every friday'' = ''8pm''"
  by code_simp

text \<open>
  C5. The claim is that an accepted argument with \<open>N\<close> distinct day names and a time
  token creates \<open>N\<close> rows. In the argument
  \<^verbatim>\<open>remind to call mom every monday 8pm every friday\<close> the text after the first
  \<^verbatim>\<open>every\<close> names two days, Monday and Friday, and holds the time token \<^verbatim>\<open>8pm\<close>; the
  handler, which keeps that text up to the second \<^verbatim>\<open>every\<close> only (C3), creates one row,
  for Monday, in a process of the zone Asia/Kolkata as in any other.
\<close>

theorem second_every_loses_a_day:
  "toLowerCase ''remind to call mom every monday 8pm every friday'' =
     ''remind to call mom '' @ ''every'' @ '' monday 8pm every friday''
   \<and> foundDays '' monday 8pm every friday'' = [''monday'', ''friday'']
   \<and> timePart '' monday 8pm every friday'' = ''8pm''
   \<and> parseDate kolkata_process ''8pm'' = Some 52200
   \<and> addReminder kolkata_process (\<lambda>_. None) pick 7
        ''remind to call mom every monday 8pm every friday'' empty_db =
      Inr (\<lparr>reminders = [\<lparr>rowid = 1, chat_id = ''7'', message = ''to call mom'',
                           day_of_week = ''monday'', time = ''20:00'', recurring = ''yes''\<rparr>],
            seq = 1\<rparr>,
           [ReminderSet ''monday'' ''20:00''])"
proof -
  have days: "foundDays ''monday 8pm'' \<noteq> []" by (simp add: mom_days)
  have p: "parseDate kolkata_process (timePart ''monday 8pm'') = Some 52200"
    using kolkata_parse by (simp only: mom_time)
  have m: "max_rowid empty_db = 0" by (simp add: max_rowid_def empty_db_def)
  have "addReminder kolkata_process (\<lambda>_. None) pick 7
        ''remind to call mom every monday 8pm every friday'' empty_db =
      Inr (\<lparr>reminders = [\<lparr>rowid = 1, chat_id = ''7'', message = ''to call mom'',
                           day_of_week = ''monday'', time = ''20:00'', recurring = ''yes''\<rparr>],
            seq = 1\<rparr>,
           [ReminderSet ''monday'' ''20:00''])"
    using addReminder_success [OF second_every_parts days p, of pick 7 empty_db]
    unfolding mom_days scheduled_days_single kolkata_8pm m
    by (simp add: toString_eval empty_db_def)
  with second_every_rest second_every_rest_days second_every_rest_time kolkata_parse
  show ?thesis by blast
qed

section \<open>The ids of /deleteReminders\<close>

lemma delete_each_no_fault:
  "snd (delete_each text_id (\<lambda>_. None) k c toks d) = []"
  by (induction toks arbitrary: k d) (simp_all add: db_run_def)

lemma deleteReminders_rejects:
  "reminderIds arg = [] \<Longrightarrow> deleteReminders text_id errs chatId arg d = (d, [ProvideValidIds])"
  by (simp add: deleteReminders_def)

lemma deleteReminders_reply:
  "reminderIds arg \<noteq> [] \<Longrightarrow>
   hd (snd (deleteReminders text_id errs chatId arg d)) =
     SuccessfullyDeleted (join (reminderIds arg) '', '')"
  by (simp add: deleteReminders_def)

lemma empty_token_ids: "reminderIds ''1,,3'' = [''1'', [], ''3'']"
  by code_simp

lemma only_commas_ids: "reminderIds '','' = [[], []]"
  by code_simp

lemma spec_example_ids: "reminderIds ''1,abc,3'' = [''1'', ''3'']"
  by code_simp

text \<open>
  C4. The claim is that the ids the handler of \<^verbatim>\<open>/deleteReminders\<close> attempts are the
  tokens that are integers. On the argument \<^verbatim>\<open>1,,3\<close> the empty token passes the filter
  (\<^verbatim>\<open>Number("")\<close> is 0), three statements are issued and the reply lists three ids; on the
  argument of a single comma both tokens are empty, nothing is rejected and the reply
  reports a success.
\<close>

theorem deleteReminders_keeps_empty_token:
  "reminderIds ''1,,3'' = [''1'', [], ''3'']
   \<and> snd (deleteReminders text_id (\<lambda>_. None) chatId ''1,,3'' d) = [SuccessfullyDeleted ''1, , 3'']
   \<and> reminderIds '','' = [[], []]
   \<and> snd (deleteReminders text_id (\<lambda>_. None) chatId '','' d) = [SuccessfullyDeleted '', '']"
  by (simp add: deleteReminders_def empty_token_ids only_commas_ids delete_each_no_fault
      del: delete_each.simps)

lemma sql_delete_commute:
  "snd (sql_delete p c (snd (sql_delete q c' d))) = snd (sql_delete q c' (snd (sql_delete p c d)))"
proof -
  have "filter (\<lambda>r. \<not> (p (rowid r) \<and> chat_id r = c))
          (filter (\<lambda>r. \<not> (q (rowid r) \<and> chat_id r = c')) (reminders d)) =
        filter (\<lambda>r. \<not> (q (rowid r) \<and> chat_id r = c'))
          (filter (\<lambda>r. \<not> (p (rowid r) \<and> chat_id r = c)) (reminders d))"
    by (simp only: filter_filter conj_commute)
  then show ?thesis by (simp add: sql_delete_def Let_def)
qed

end
